theory Spec2Isabelle
  imports Complex_Main "HOL-Library.AList" "HOL-Library.List_Lexorder" "HOL-Library.Char_ord"
begin

section \<open>JavaScript values\<close>

text \<open>
  The numbers of the server actions are limits, page numbers and document counts:
  integers, together with the three non-finite values a division can give. The page
  number of the \<open>Pagination\<close> component, which may be any double, has a type of its own
  further down.
\<close>

datatype js_number = Finite int | NaN | PosInfinity | NegInfinity

text \<open>
  A thrown or logged value. \<open>JError m ps\<close> is an instance of \<open>Error\<close> with message \<open>m\<close>
  (a non-enumerable property) and the enumerable own properties \<open>ps\<close>;
  \<open>new Error(m)\<close> has none.
\<close>

datatype js_value =
    JUndefined
  | JNull
  | JBool bool
  | JNumber js_number
  | JString string
  | JArray "js_value list"
  | JObject "(string \<times> js_value) list"
  | JError string "(string \<times> js_value) list"

fun decimal :: "nat \<Rightarrow> string" where
  "decimal n =
     (if n < 10 then [char_of (48 + n)]
      else decimal (n div 10) @ [char_of (48 + n mod 10)])"

declare decimal.simps [simp del]

text \<open>\<open>Number.prototype.toString\<close> on the numbers of the model.\<close>

fun Number_toString :: "js_number \<Rightarrow> string" where
  "Number_toString (Finite i) =
     (if i < 0 then CHR ''-'' # decimal (nat (- i)) else decimal (nat i))"
| "Number_toString NaN = ''NaN''"
| "Number_toString PosInfinity = ''Infinity''"
| "Number_toString NegInfinity = ''-Infinity''"

text \<open>
  \<open>Math.ceil(count / limit)\<close> for an integer count and an integer limit: the quotient
  is the exact quotient, and a division by zero gives \<open>NaN\<close> or an infinity as in
  JavaScript (the sign of a zero is not modelled).
\<close>

definition Math_ceil_div :: "int \<Rightarrow> int \<Rightarrow> js_number" where
  "Math_ceil_div count limit =
     (if limit = 0 then (if count = 0 then NaN else if count > 0 then PosInfinity else NegInfinity)
      else Finite \<lceil>real_of_int count / real_of_int limit\<rceil>)"

subsection \<open>\<open>JSON.stringify\<close>\<close>

definition hex_digit :: "nat \<Rightarrow> char" where
  "hex_digit n = (''0123456789abcdef'' ! (n mod 16))"

definition json_escape :: "char \<Rightarrow> string" where
  "json_escape c =
     (if c = CHR 0x22 then [CHR 0x5C, CHR 0x22]
      else if c = CHR 0x5C then [CHR 0x5C, CHR 0x5C]
      else if c = CHR 0x08 then [CHR 0x5C, CHR ''b'']
      else if c = CHR 0x0C then [CHR 0x5C, CHR ''f'']
      else if c = CHR 0x0A then [CHR 0x5C, CHR ''n'']
      else if c = CHR 0x0D then [CHR 0x5C, CHR ''r'']
      else if c = CHR 0x09 then [CHR 0x5C, CHR ''t'']
      else if (of_char c :: nat) < 32
        then [CHR 0x5C, CHR ''u'', CHR ''0'', CHR ''0'',
              hex_digit (of_char c div 16), hex_digit (of_char c)]
      else [c])"

definition json_quote :: "string \<Rightarrow> string" where
  "json_quote s = CHR 0x22 # concat (map json_escape s) @ [CHR 0x22]"

fun join_with :: "string \<Rightarrow> string list \<Rightarrow> string" where
  "join_with sep [] = []"
| "join_with sep [x] = x"
| "join_with sep (x # y # ys) = x @ sep @ join_with sep (y # ys)"

text \<open>
  \<open>None\<close> stands for the result \<open>undefined\<close>. An \<open>Error\<close> is serialised like any object,
  by its enumerable own properties, so \<open>JSON.stringify(new Error(m))\<close> is \<open>{}\<close>.
\<close>

fun JSON_stringify :: "js_value \<Rightarrow> string option" where
  "JSON_stringify JUndefined = None"
| "JSON_stringify JNull = Some ''null''"
| "JSON_stringify (JBool b) = Some (if b then ''true'' else ''false'')"
| "JSON_stringify (JNumber n) =
     Some (case n of Finite i \<Rightarrow> Number_toString n | _ \<Rightarrow> ''null'')"
| "JSON_stringify (JString s) = Some (json_quote s)"
| "JSON_stringify (JArray xs) =
     Some (''['' @ join_with '',''
        (map (\<lambda>x. case JSON_stringify x of None \<Rightarrow> ''null'' | Some s \<Rightarrow> s) xs) @ '']'')"
| "JSON_stringify (JObject kvs) =
     Some (''{'' @ join_with '',''
        (concat (map (\<lambda>(k, v). case JSON_stringify v of None \<Rightarrow> []
                                 | Some s \<Rightarrow> [json_quote k @ '':'' @ s]) kvs)) @ ''}'')"
| "JSON_stringify (JError m kvs) =
     Some (''{'' @ join_with '',''
        (concat (map (\<lambda>(k, v). case JSON_stringify v of None \<Rightarrow> []
                                 | Some s \<Rightarrow> [json_quote k @ '':'' @ s]) kvs)) @ ''}'')"

text \<open>\<open>new Error(message)\<close>; an \<open>undefined\<close> argument leaves the message empty.\<close>

definition new_Error :: "string option \<Rightarrow> js_value" where
  "new_Error message = JError (case message of None \<Rightarrow> [] | Some m \<Rightarrow> m) []"

section \<open>Documents and the world\<close>

text \<open>An \<open>ObjectId\<close> is identified with its hexadecimal text, so \<open>toHexString\<close> is the identity.\<close>

type_synonym oid = string

text \<open>\<open>UpdateUserParams\<close>, \<open>CreateUserParams\<close> and the stored user, each extending the one before.\<close>

record user_update =
  firstName :: string
  lastName :: string
  username :: string
  photo :: string

record user_form = user_update +
  clerkId :: string
  email :: string

record user_doc = user_form +
  user_id :: oid
  user_events :: "oid list"
  user_orders :: "oid list"

record category_doc =
  category_id :: oid
  category_name :: string

text \<open>The \<open>event\<close> member of \<open>CreateEventParams\<close>; \<open>UpdateEventParams\<close> adds \<open>_id\<close>.\<close>

record event_form =
  title :: string
  description :: string
  location :: string
  imageUrl :: string
  startDateTime :: int
  endDateTime :: int
  categoryId :: string
  price :: string
  isFree :: bool
  url :: string

record event_update = event_form +
  form_id :: string

text \<open>
  A stored event: \<open>organizer\<close> is a single reference, as \<open>createEvent\<close> writes it and
  as \<open>updateEvent\<close> reads it (\<open>organizer.toHexString()\<close>).
\<close>

record event_doc =
  event_id :: oid
  event_data :: event_form
  event_createdAt :: int
  event_category :: oid
  event_organizer :: oid

text \<open>\<open>CreateOrderParams\<close> and the stored order; \<open>deleteUser\<close> unsets \<open>buyer\<close>.\<close>

record order_form =
  stripeId :: string
  order_eventId :: string
  order_buyerId :: string
  totalAmount :: string
  createdAt :: int

record order_doc =
  order_id :: oid
  order_createdAt :: int
  order_stripeId :: string
  order_totalAmount :: string
  order_event :: oid
  order_buyer :: "oid option"

datatype collection = Users | Events | Categories | Orders

datatype db_method =
    Create | Find | FindOne | FindById | FindByIdAndUpdate | FindOneAndUpdate
  | FindByIdAndDelete | UpdateMany | CountDocuments | Aggregate

datatype db_call = Connect | Query collection db_method

datatype console_entry = ConsoleLog js_value | ConsoleError js_value

text \<open>
  The world a server action runs in: the four collections, the console, the paths handed
  to \<open>revalidatePath\<close>, and the calls made to the database so far, each with the value it
  threw, if any. \<open>faults\<close> says which call fails for a reason outside the model (the
  connection, a validation, a duplicate key): the call number \<open>n\<close> throws \<open>v\<close> when
  \<open>faults n = Some v\<close>. \<open>new_ids\<close> supplies the identifiers of created documents and
  \<open>now\<close> the default of \<open>createdAt\<close>.
\<close>

record world =
  users :: "user_doc list"
  events :: "event_doc list"
  categories :: "category_doc list"
  orders :: "order_doc list"
  console :: "console_entry list"
  revalidated :: "string list"
  trace :: "(db_call \<times> js_value option) list"
  faults :: "nat \<Rightarrow> js_value option"
  new_ids :: "nat \<Rightarrow> oid"
  now :: int

text \<open>
  What the code takes from the driver and the runtime and this repository does not
  define: the cast of a string to an \<open>ObjectId\<close> (\<open>None\<close> when it is refused), the
  matcher of a regular expression with its flags (\<open>None\<close> when the pattern is
  refused), what the database makes of \<open>$pull: { organizer: id }\<close> on one matched event
  (the updated document, or the value it throws when it refuses the update; the schema
  of an event is not part of the repository), and the values thrown for the failures
  the model decides itself.
\<close>

datatype failure =
    CastFailure string
  | InvalidRegex string
  | NegativeSkip int
  | InvalidObjectId string
  | InvalidRegExp string

record driver =
  ObjectId_of :: "string \<Rightarrow> oid option"
  regex :: "string \<Rightarrow> string \<Rightarrow> (string \<Rightarrow> bool) option"
  pull_organizer :: "oid \<Rightarrow> event_doc \<Rightarrow> js_value + event_doc"
  driver_error :: "failure \<Rightarrow> js_value"

text \<open>The matcher of a pattern with the flag \<open>i\<close>, as every regular expression of the code has it.\<close>

abbreviation regex_i :: "driver \<Rightarrow> string \<Rightarrow> (string \<Rightarrow> bool) option" where
  "regex_i drv pattern \<equiv> regex drv pattern ''i''"

section \<open>Actions: state, exceptions, \<open>try\<close>/\<open>catch\<close>\<close>

type_synonym 'a action = "world \<Rightarrow> (js_value + 'a) \<times> world"

definition resolve :: "'a \<Rightarrow> 'a action" where
  "resolve x w = (Inr x, w)"

definition throw :: "js_value \<Rightarrow> 'a action" where
  "throw v w = (Inl v, w)"

definition await :: "'a action \<Rightarrow> ('a \<Rightarrow> 'b action) \<Rightarrow> 'b action" where
  "await m k w = (case m w of (Inl v, w') \<Rightarrow> (Inl v, w') | (Inr x, w') \<Rightarrow> k x w')"

definition try_catch :: "'a action \<Rightarrow> (js_value \<Rightarrow> 'a action) \<Rightarrow> 'a action" where
  "try_catch body handler w =
     (case body w of (Inl v, w') \<Rightarrow> handler v w' | (Inr x, w') \<Rightarrow> (Inr x, w'))"

definition console_log :: "js_value \<Rightarrow> unit action" where
  "console_log v w = (Inr (), w\<lparr>console := console w @ [ConsoleLog v]\<rparr>)"

definition console_error :: "js_value \<Rightarrow> unit action" where
  "console_error v w = (Inr (), w\<lparr>console := console w @ [ConsoleError v]\<rparr>)"

definition revalidatePath :: "string \<Rightarrow> unit action" where
  "revalidatePath path w = (Inr (), w\<lparr>revalidated := revalidated w @ [path]\<rparr>)"

text \<open>\<open>src/lib/utils.ts\<close>, \<open>handleError\<close>.\<close>

definition error_message :: "js_value \<Rightarrow> string option" where
  "error_message error = (case error of JString s \<Rightarrow> Some s | _ \<Rightarrow> JSON_stringify error)"

definition handleError :: "js_value \<Rightarrow> 'a action" where
  "handleError error =
     await (console_error error) (\<lambda>_. throw (new_Error (error_message error)))"

text \<open>
  One call to the database: it throws the scheduled fault, if there is one, and runs
  otherwise; either way the call and its outcome are appended to the trace.
\<close>

definition db_op :: "db_call \<Rightarrow> 'a action \<Rightarrow> 'a action" where
  "db_op c run w =
     (case faults w (length (trace w)) of
        Some v \<Rightarrow> (Inl v, w\<lparr>trace := trace w @ [(c, Some v)]\<rparr>)
      | None \<Rightarrow>
          (case run w of
             (Inl v, w') \<Rightarrow> (Inl v, w'\<lparr>trace := trace w' @ [(c, Some v)]\<rparr>)
           | (Inr x, w') \<Rightarrow> (Inr x, w'\<lparr>trace := trace w' @ [(c, None)]\<rparr>)))"

definition connectToDatabase :: "unit action" where
  "connectToDatabase = db_op Connect (resolve ())"

definition cast_failed :: "driver \<Rightarrow> string \<Rightarrow> 'a action" where
  "cast_failed drv s = throw (driver_error drv (CastFailure s))"

text \<open>A parameter with a default value: \<open>None\<close> is the argument left out.\<close>

definition or_default :: "'a option \<Rightarrow> 'a \<Rightarrow> 'a" where
  "or_default arg d = (case arg of None \<Rightarrow> d | Some x \<Rightarrow> x)"

text \<open>\<open>a || b\<close> for an optional string \<open>a\<close>: \<open>b\<close> when \<open>a\<close> is \<open>undefined\<close> or empty.\<close>

definition or_else :: "string option \<Rightarrow> string \<Rightarrow> string" where
  "or_else a b = (case a of None \<Rightarrow> b | Some s \<Rightarrow> if s = [] then b else s)"

text \<open>\<open>JSON.parse(JSON.stringify(doc))\<close> of a document of the model gives the same data.\<close>

definition JSON_clone :: "'a \<Rightarrow> 'a" where
  "JSON_clone doc = doc"

fun update_first :: "('a \<Rightarrow> bool) \<Rightarrow> ('a \<Rightarrow> 'a) \<Rightarrow> 'a list \<Rightarrow> 'a list" where
  "update_first P f [] = []"
| "update_first P f (x # xs) = (if P x then f x # xs else x # update_first P f xs)"

fun remove_first :: "('a \<Rightarrow> bool) \<Rightarrow> 'a list \<Rightarrow> 'a list" where
  "remove_first P [] = []"
| "remove_first P (x # xs) = (if P x then xs else x # remove_first P xs)"

section \<open>The model methods the actions call\<close>

subsection \<open>\<open>User\<close>\<close>

definition User_create :: "user_form \<Rightarrow> user_doc action" where
  "User_create user = db_op (Query Users Create) (\<lambda>w.
     let newUser = \<lparr>firstName = firstName user, lastName = lastName user,
                     username = username user, photo = photo user,
                     clerkId = clerkId user, email = email user,
                     user_id = new_ids w (length (trace w)),
                     user_events = [], user_orders = []\<rparr>
     in (Inr newUser, w\<lparr>users := users w @ [newUser]\<rparr>))"

definition User_findById :: "driver \<Rightarrow> string \<Rightarrow> user_doc option action" where
  "User_findById drv userId = db_op (Query Users FindById)
     (case ObjectId_of drv userId of
        None \<Rightarrow> cast_failed drv userId
      | Some i \<Rightarrow> (\<lambda>w. (Inr (find (\<lambda>u. user_id u = i) (users w)), w)))"

definition User_findOne_clerkId :: "string \<Rightarrow> user_doc option action" where
  "User_findOne_clerkId clerkId' = db_op (Query Users FindOne)
     (\<lambda>w. (Inr (find (\<lambda>u. clerkId u = clerkId') (users w)), w))"

definition apply_user_update :: "user_update \<Rightarrow> user_doc \<Rightarrow> user_doc" where
  "apply_user_update user u =
     u\<lparr>firstName := firstName user, lastName := lastName user,
       username := username user, photo := photo user\<rparr>"

definition User_findOneAndUpdate_clerkId :: "string \<Rightarrow> user_update \<Rightarrow> user_doc option action" where
  "User_findOneAndUpdate_clerkId clerkId' user = db_op (Query Users FindOneAndUpdate) (\<lambda>w.
     (Inr (map_option (apply_user_update user) (find (\<lambda>u. clerkId u = clerkId') (users w))),
      w\<lparr>users := update_first (\<lambda>u. clerkId u = clerkId') (apply_user_update user) (users w)\<rparr>))"

definition User_findByIdAndDelete :: "oid \<Rightarrow> user_doc option action" where
  "User_findByIdAndDelete i = db_op (Query Users FindByIdAndDelete) (\<lambda>w.
     (Inr (find (\<lambda>u. user_id u = i) (users w)),
      w\<lparr>users := remove_first (\<lambda>u. user_id u = i) (users w)\<rparr>))"

subsection \<open>\<open>Category\<close>\<close>

definition Category_create :: "string \<Rightarrow> category_doc action" where
  "Category_create name = db_op (Query Categories Create) (\<lambda>w.
     let newCategory = \<lparr>category_id = new_ids w (length (trace w)), category_name = name\<rparr>
     in (Inr newCategory, w\<lparr>categories := categories w @ [newCategory]\<rparr>))"

definition Category_find :: "category_doc list action" where
  "Category_find = db_op (Query Categories Find) (\<lambda>w. (Inr (categories w), w))"

text \<open>\<open>Category.findOne({ name: { $regex: name, $options: 'i' } })\<close>\<close>

definition Category_findOne_name_regex :: "driver \<Rightarrow> string \<Rightarrow> category_doc option action" where
  "Category_findOne_name_regex drv name = db_op (Query Categories FindOne)
     (case regex drv name ''i'' of
        None \<Rightarrow> throw (driver_error drv (InvalidRegex name))
      | Some matches \<Rightarrow> (\<lambda>w. (Inr (find (\<lambda>c. matches (category_name c)) (categories w)), w)))"

section \<open>\<open>src/lib/actions/user.actions.ts\<close>\<close>

definition createUser :: "user_form \<Rightarrow> user_doc action" where
  "createUser user =
     try_catch
       (await connectToDatabase (\<lambda>_.
        await (User_create user) (\<lambda>newUser.
        resolve (JSON_clone newUser))))
       handleError"

definition getUserById :: "driver \<Rightarrow> string \<Rightarrow> user_doc action" where
  "getUserById drv userId =
     try_catch
       (await connectToDatabase (\<lambda>_.
        await (User_findById drv userId) (\<lambda>user.
        case user of
          None \<Rightarrow> throw (new_Error (Some ''User not found''))
        | Some u \<Rightarrow> resolve (JSON_clone u))))
       handleError"

definition updateUser :: "string \<Rightarrow> user_update \<Rightarrow> user_doc action" where
  "updateUser clerkId' user =
     try_catch
       (await connectToDatabase (\<lambda>_.
        await (User_findOneAndUpdate_clerkId clerkId' user) (\<lambda>updatedUser.
        case updatedUser of
          None \<Rightarrow> throw (new_Error (Some ''User update failed''))
        | Some u \<Rightarrow> resolve (JSON_clone u))))
       handleError"

section \<open>\<open>src/lib/actions/category.actions.ts\<close>\<close>

definition createCategory :: "string \<Rightarrow> category_doc action" where
  "createCategory categoryName =
     try_catch
       (await connectToDatabase (\<lambda>_.
        await (Category_create categoryName) (\<lambda>newCategory.
        resolve (JSON_clone newCategory))))
       handleError"

definition getAllCategories :: "category_doc list action" where
  "getAllCategories =
     try_catch
       (await connectToDatabase (\<lambda>_.
        await Category_find (\<lambda>categories.
        resolve (JSON_clone categories))))
       handleError"

section \<open>Queries on events\<close>

text \<open>
  A filter is modelled by the predicate it denotes, or by the failure of casting it
  (a string that is no \<open>ObjectId\<close>, a pattern that is no regular expression), which
  the query throws when it is executed.
\<close>

type_synonym 'a conditions = "failure + ('a \<Rightarrow> bool)"

definition no_condition :: "'a conditions" where
  "no_condition = Inr (\<lambda>_. True)"

definition and_conditions :: "'a conditions \<Rightarrow> 'a conditions \<Rightarrow> 'a conditions" where
  "and_conditions a b =
     (case a of
        Inl f \<Rightarrow> Inl f
      | Inr p \<Rightarrow> (case b of Inl f \<Rightarrow> Inl f | Inr q \<Rightarrow> Inr (\<lambda>d. p d \<and> q d)))"

text \<open>\<open>{ field: { $regex: pattern, $options: 'i' } }\<close>\<close>

definition regex_condition :: "driver \<Rightarrow> string \<Rightarrow> ('a \<Rightarrow> string) \<Rightarrow> 'a conditions" where
  "regex_condition drv pattern field =
     (case regex drv pattern ''i'' of
        None \<Rightarrow> Inl (InvalidRegex pattern)
      | Some matches \<Rightarrow> Inr (\<lambda>d. matches (field d)))"

definition id_condition :: "driver \<Rightarrow> string \<Rightarrow> (oid \<Rightarrow> 'a \<Rightarrow> bool) \<Rightarrow> 'a conditions" where
  "id_condition drv s test =
     (case ObjectId_of drv s of None \<Rightarrow> Inl (CastFailure s) | Some i \<Rightarrow> Inr (test i))"

text \<open>
  \<open>.sort({ createdAt: 'desc' })\<close>, taken to keep the stored order among equal dates;
  \<open>.skip(n)\<close>, which the database refuses for a negative \<open>n\<close>; \<open>.limit(n)\<close>, where \<open>0\<close>
  means no limit and a negative \<open>n\<close> its absolute value.
\<close>

definition sort_createdAt_desc :: "('a \<Rightarrow> int) \<Rightarrow> 'a list \<Rightarrow> 'a list" where
  "sort_createdAt_desc date xs = sort_key (\<lambda>x. - date x) xs"

definition limit_docs :: "int \<Rightarrow> 'a list \<Rightarrow> 'a list" where
  "limit_docs n xs = (if n = 0 then xs else take (nat \<bar>n\<bar>) xs)"

definition find_page ::
    "driver \<Rightarrow> 'a conditions \<Rightarrow> ('a \<Rightarrow> int) \<Rightarrow> int \<Rightarrow> int \<Rightarrow> 'a list \<Rightarrow> js_value + 'a list" where
  "find_page drv conditions date skipAmount limit docs =
     (case conditions of
        Inl f \<Rightarrow> Inl (driver_error drv f)
      | Inr matches \<Rightarrow>
          if skipAmount < 0 then Inl (driver_error drv (NegativeSkip skipAmount))
          else Inr (limit_docs limit (drop (nat skipAmount)
                 (sort_createdAt_desc date (filter matches docs)))))"

definition count_matching :: "driver \<Rightarrow> 'a conditions \<Rightarrow> 'a list \<Rightarrow> js_value + int" where
  "count_matching drv conditions docs =
     (case conditions of
        Inl f \<Rightarrow> Inl (driver_error drv f)
      | Inr matches \<Rightarrow> Inr (int (length (filter matches docs))))"

text \<open>
  \<open>populateEvent\<close>: the organizer is replaced by the \<open>_id\<close>, \<open>firstName\<close> and \<open>lastName\<close> of
  the user it names and the category by the category it names, \<open>null\<close> when there is none.
\<close>

record organizer_ref =
  ref_id :: oid
  ref_firstName :: string
  ref_lastName :: string

record populated_event =
  source :: event_doc
  organizer :: "organizer_ref option"
  category :: "category_doc option"

record 'a page_result =
  data :: "'a list"
  totalPages :: js_number

definition populate_organizer :: "world \<Rightarrow> oid \<Rightarrow> organizer_ref option" where
  "populate_organizer w i =
     map_option (\<lambda>u. \<lparr>ref_id = user_id u, ref_firstName = firstName u, ref_lastName = lastName u\<rparr>)
       (find (\<lambda>u. user_id u = i) (users w))"

definition populateEvent :: "world \<Rightarrow> event_doc \<Rightarrow> populated_event" where
  "populateEvent w e =
     \<lparr>source = e,
      organizer = populate_organizer w (event_organizer e),
      category = find (\<lambda>c. category_id c = event_category e) (categories w)\<rparr>"

definition Event_create :: "driver \<Rightarrow> event_form \<Rightarrow> string \<Rightarrow> string \<Rightarrow> event_doc action" where
  "Event_create drv event categoryId' organizer' = db_op (Query Events Create)
     (case ObjectId_of drv categoryId' of
        None \<Rightarrow> cast_failed drv categoryId'
      | Some c \<Rightarrow>
          (case ObjectId_of drv organizer' of
             None \<Rightarrow> cast_failed drv organizer'
           | Some org \<Rightarrow> (\<lambda>w.
               let newEvent = \<lparr>event_id = new_ids w (length (trace w)), event_data = event,
                                event_createdAt = now w, event_category = c,
                                event_organizer = org\<rparr>
               in (Inr newEvent, w\<lparr>events := events w @ [newEvent]\<rparr>))))"

definition Event_findById :: "driver \<Rightarrow> string \<Rightarrow> event_doc option action" where
  "Event_findById drv s = db_op (Query Events FindById)
     (case ObjectId_of drv s of
        None \<Rightarrow> cast_failed drv s
      | Some i \<Rightarrow> (\<lambda>w. (Inr (find (\<lambda>e. event_id e = i) (events w)), w)))"

definition Event_findById_populated :: "driver \<Rightarrow> string \<Rightarrow> populated_event option action" where
  "Event_findById_populated drv s = db_op (Query Events FindById)
     (case ObjectId_of drv s of
        None \<Rightarrow> cast_failed drv s
      | Some i \<Rightarrow> (\<lambda>w.
          (Inr (map_option (populateEvent w) (find (\<lambda>e. event_id e = i) (events w))), w)))"

definition Event_find_populated ::
    "driver \<Rightarrow> event_doc conditions \<Rightarrow> int \<Rightarrow> int \<Rightarrow> populated_event list action" where
  "Event_find_populated drv conditions skipAmount limit = db_op (Query Events Find) (\<lambda>w.
     case find_page drv conditions event_createdAt skipAmount limit (events w) of
       Inl v \<Rightarrow> (Inl v, w)
     | Inr found \<Rightarrow> (Inr (map (populateEvent w) found), w))"

definition Event_countDocuments :: "driver \<Rightarrow> event_doc conditions \<Rightarrow> int action" where
  "Event_countDocuments drv conditions = db_op (Query Events CountDocuments) (\<lambda>w.
     case count_matching drv conditions (events w) of
       Inl v \<Rightarrow> (Inl v, w)
     | Inr n \<Rightarrow> (Inr n, w))"

definition Event_findByIdAndDelete :: "driver \<Rightarrow> string \<Rightarrow> event_doc option action" where
  "Event_findByIdAndDelete drv s = db_op (Query Events FindByIdAndDelete)
     (case ObjectId_of drv s of
        None \<Rightarrow> cast_failed drv s
      | Some i \<Rightarrow> (\<lambda>w.
          (Inr (find (\<lambda>e. event_id e = i) (events w)),
           w\<lparr>events := remove_first (\<lambda>e. event_id e = i) (events w)\<rparr>)))"

text \<open>
  \<open>Event.findByIdAndUpdate(event._id, { ...event, category: event.categoryId }, { new: true })\<close>:
  the fields of the form and the category are set, the organizer and the creation date stay.
\<close>

definition apply_event_update :: "event_update \<Rightarrow> oid \<Rightarrow> event_doc \<Rightarrow> event_doc" where
  "apply_event_update event c e =
     e\<lparr>event_data := event_form.truncate event, event_category := c\<rparr>"

definition Event_findByIdAndUpdate ::
    "driver \<Rightarrow> string \<Rightarrow> event_update \<Rightarrow> event_doc option action" where
  "Event_findByIdAndUpdate drv s event = db_op (Query Events FindByIdAndUpdate)
     (case ObjectId_of drv s of
        None \<Rightarrow> cast_failed drv s
      | Some i \<Rightarrow>
          (case ObjectId_of drv (categoryId event) of
             None \<Rightarrow> cast_failed drv (categoryId event)
           | Some c \<Rightarrow> (\<lambda>w.
               (Inr (map_option (apply_event_update event c) (find (\<lambda>e. event_id e = i) (events w))),
                w\<lparr>events := update_first (\<lambda>e. event_id e = i) (apply_event_update event c)
                                 (events w)\<rparr>))))"

text \<open>
  \<open>updateMany\<close> with an update that the database may refuse: the matched documents are
  updated one after the other; a refusal stops the update, the documents updated
  before stay updated.
\<close>

fun update_matching ::
    "('a \<Rightarrow> bool) \<Rightarrow> ('a \<Rightarrow> js_value + 'a) \<Rightarrow> 'a list \<Rightarrow> js_value option \<times> 'a list" where
  "update_matching P f [] = (None, [])"
| "update_matching P f (x # xs) =
     (if P x
      then (case f x of
              Inl v \<Rightarrow> (Some v, x # xs)
            | Inr y \<Rightarrow> (case update_matching P f xs of (r, ys) \<Rightarrow> (r, y # ys)))
      else (case update_matching P f xs of (r, ys) \<Rightarrow> (r, x # ys)))"

text \<open>\<open>Event.updateMany({ _id: { $in: ids } }, { $pull: { organizer: userId } })\<close>\<close>

definition Event_updateMany_pull_organizer :: "driver \<Rightarrow> oid list \<Rightarrow> oid \<Rightarrow> unit action" where
  "Event_updateMany_pull_organizer drv ids userId = db_op (Query Events UpdateMany) (\<lambda>w.
     case update_matching (\<lambda>e. event_id e \<in> set ids) (pull_organizer drv userId) (events w) of
       (Some v, updated) \<Rightarrow> (Inl v, w\<lparr>events := updated\<rparr>)
     | (None, updated) \<Rightarrow> (Inr (), w\<lparr>events := updated\<rparr>))"

section \<open>The event actions (\<open>src/lib/actions/event.actions.ts\<close> and its later versions)\<close>

definition getCategoryByName :: "driver \<Rightarrow> string \<Rightarrow> category_doc option action" where
  "getCategoryByName drv name = Category_findOne_name_regex drv name"

definition createEvent :: "driver \<Rightarrow> string \<Rightarrow> event_form \<Rightarrow> string \<Rightarrow> event_doc action" where
  "createEvent drv userId event path =
     try_catch
       (await connectToDatabase (\<lambda>_.
        await (console_log (JObject [(''category'', JString (categoryId event))])) (\<lambda>_.
        await (User_findById drv userId) (\<lambda>organizer.
        case organizer of
          None \<Rightarrow> throw (new_Error (Some ''Organizer not found''))
        | Some _ \<Rightarrow>
            await (Event_create drv event (categoryId event) userId) (\<lambda>newEvent.
            await (revalidatePath path) (\<lambda>_.
            resolve (JSON_clone newEvent)))))))
       handleError"

definition getEventById :: "driver \<Rightarrow> string \<Rightarrow> populated_event action" where
  "getEventById drv eventId =
     try_catch
       (await connectToDatabase (\<lambda>_.
        await (Event_findById_populated drv eventId) (\<lambda>event.
        case event of
          None \<Rightarrow> throw (new_Error (Some ''Event not found''))
        | Some e \<Rightarrow> resolve (JSON_clone e))))
       handleError"

text \<open>The first version of \<open>getAllEvents\<close>: no filter and no page.\<close>

definition getAllEvents_initial ::
    "driver \<Rightarrow> string \<Rightarrow> int option \<Rightarrow> int \<Rightarrow> string \<Rightarrow> populated_event page_result action" where
  "getAllEvents_initial drv query limit_arg page category_arg =
     (let limit = or_default limit_arg 6 in
      try_catch
        (await connectToDatabase (\<lambda>_.
         let conditions = no_condition in
         await (Event_find_populated drv conditions 0 limit) (\<lambda>events.
         await (Event_countDocuments drv conditions) (\<lambda>eventsCount.
         resolve \<lparr>data = JSON_clone events, totalPages = Math_ceil_div eventsCount limit\<rparr>))))
        handleError)"

text \<open>The later version. An empty string stands for an absent \<open>query\<close> or \<open>category\<close>.\<close>

definition getAllEvents ::
    "driver \<Rightarrow> string \<Rightarrow> int option \<Rightarrow> int \<Rightarrow> string \<Rightarrow> populated_event page_result action" where
  "getAllEvents drv query limit_arg page category_arg =
     (let limit = or_default limit_arg 6 in
      try_catch
        (await connectToDatabase (\<lambda>_.
         let titleCondition =
               (if query \<noteq> [] then regex_condition drv query (\<lambda>e. title (event_data e))
                else no_condition) in
         await (if category_arg \<noteq> [] then getCategoryByName drv category_arg else resolve None)
           (\<lambda>categoryCondition.
         let conditions = and_conditions titleCondition
               (case categoryCondition of
                  Some c \<Rightarrow> Inr (\<lambda>e. event_category e = category_id c)
                | None \<Rightarrow> no_condition);
             skipAmount = (page - 1) * limit in
         await (Event_find_populated drv conditions skipAmount limit) (\<lambda>events.
         await (Event_countDocuments drv conditions) (\<lambda>eventsCount.
         resolve \<lparr>data = JSON_clone events, totalPages = Math_ceil_div eventsCount limit\<rparr>)))))
        handleError)"

definition deleteEvent :: "driver \<Rightarrow> string \<Rightarrow> string \<Rightarrow> unit action" where
  "deleteEvent drv eventId path =
     try_catch
       (await connectToDatabase (\<lambda>_.
        await (Event_findByIdAndDelete drv eventId) (\<lambda>deletedEvent.
        if deletedEvent \<noteq> None then revalidatePath path else resolve ())))
       handleError"

definition updateEvent ::
    "driver \<Rightarrow> string \<Rightarrow> event_update \<Rightarrow> string \<Rightarrow> event_doc option action" where
  "updateEvent drv userId event path =
     try_catch
       (await connectToDatabase (\<lambda>_.
        await (Event_findById drv (form_id event)) (\<lambda>eventToUpdate.
        if (case eventToUpdate of None \<Rightarrow> True | Some e \<Rightarrow> event_organizer e \<noteq> userId)
        then throw (new_Error (Some ''Unauthorized or event not found''))
        else
          await (Event_findByIdAndUpdate drv (form_id event) event) (\<lambda>updatedEvent.
          await (revalidatePath path) (\<lambda>_.
          resolve (JSON_clone updatedEvent))))))
       handleError"

definition getRelatedEventsByCategory ::
    "driver \<Rightarrow> string \<Rightarrow> string \<Rightarrow> int option \<Rightarrow> int option
       \<Rightarrow> populated_event page_result action" where
  "getRelatedEventsByCategory drv categoryId' eventId limit_arg page_arg =
     (let limit = or_default limit_arg 3;
          page = or_default page_arg 1 in
      try_catch
        (await connectToDatabase (\<lambda>_.
         let skipAmount = (page - 1) * limit;
             conditions = and_conditions
               (id_condition drv categoryId' (\<lambda>c e. event_category e = c))
               (id_condition drv eventId (\<lambda>i e. event_id e \<noteq> i)) in
         await (Event_find_populated drv conditions skipAmount limit) (\<lambda>events.
         await (Event_countDocuments drv conditions) (\<lambda>eventsCount.
         resolve \<lparr>data = JSON_clone events, totalPages = Math_ceil_div eventsCount limit\<rparr>))))
        handleError)"

definition getEventsByUser ::
    "driver \<Rightarrow> string \<Rightarrow> int option \<Rightarrow> int \<Rightarrow> populated_event page_result action" where
  "getEventsByUser drv userId limit_arg page =
     (let limit = or_default limit_arg 6 in
      try_catch
        (await connectToDatabase (\<lambda>_.
         let conditions = id_condition drv userId (\<lambda>u e. event_organizer e = u);
             skipAmount = (page - 1) * limit in
         await (Event_find_populated drv conditions skipAmount limit) (\<lambda>events.
         await (Event_countDocuments drv conditions) (\<lambda>eventsCount.
         resolve \<lparr>data = JSON_clone events, totalPages = Math_ceil_div eventsCount limit\<rparr>))))
        handleError)"

section \<open>Queries on orders\<close>

definition Order_create :: "driver \<Rightarrow> order_form \<Rightarrow> order_doc action" where
  "Order_create drv order = db_op (Query Orders Create)
     (case ObjectId_of drv (order_eventId order) of
        None \<Rightarrow> cast_failed drv (order_eventId order)
      | Some e \<Rightarrow>
          (case ObjectId_of drv (order_buyerId order) of
             None \<Rightarrow> cast_failed drv (order_buyerId order)
           | Some b \<Rightarrow> (\<lambda>w.
               let newOrder = \<lparr>order_id = new_ids w (length (trace w)),
                                order_createdAt = createdAt order,
                                order_stripeId = stripeId order,
                                order_totalAmount = totalAmount order,
                                order_event = e, order_buyer = Some b\<rparr>
               in (Inr newOrder, w\<lparr>orders := orders w @ [newOrder]\<rparr>))))"

text \<open>\<open>Order.updateMany({ _id: { $in: ids } }, { $unset: { buyer: 1 } })\<close>\<close>

definition Order_updateMany_unset_buyer :: "oid list \<Rightarrow> unit action" where
  "Order_updateMany_unset_buyer ids = db_op (Query Orders UpdateMany) (\<lambda>w.
     (Inr (), w\<lparr>orders := map (\<lambda>ord. if order_id ord \<in> set ids then ord\<lparr>order_buyer := None\<rparr>
                                      else ord) (orders w)\<rparr>))"

text \<open>
  The stages of the aggregation pipeline of \<open>getOrdersByEvent\<close>. \<open>$lookup\<close> attaches to
  each row the list of the foreign documents it joins with, \<open>$unwind\<close> makes one row of
  each element of that list (and none of an empty list).
\<close>

definition lookup :: "('a \<Rightarrow> 'b \<Rightarrow> bool) \<Rightarrow> 'b list \<Rightarrow> 'a list \<Rightarrow> ('a \<times> 'b list) list" where
  "lookup joins foreign rows = map (\<lambda>r. (r, filter (joins r) foreign)) rows"

definition unwind :: "('a \<times> 'b list) list \<Rightarrow> ('a \<times> 'b) list" where
  "unwind rows = concat (map (\<lambda>(r, xs). map (\<lambda>x. (r, x)) xs) rows)"

record order_row =
  row_id :: oid
  row_totalAmount :: string
  row_createdAt :: int
  row_eventTitle :: string
  row_eventId :: oid
  row_buyer :: string

definition project_order :: "(order_doc \<times> user_doc) \<times> event_doc \<Rightarrow> order_row" where
  "project_order r =
     (case r of ((ord, buyer), event) \<Rightarrow>
        \<lparr>row_id = order_id ord,
         row_totalAmount = order_totalAmount ord,
         row_createdAt = order_createdAt ord,
         row_eventTitle = title (event_data event),
         row_eventId = event_id event,
         row_buyer = firstName buyer @ '' '' @ lastName buyer\<rparr>)"

definition orders_pipeline :: "oid \<Rightarrow> (string \<Rightarrow> bool) \<Rightarrow> world \<Rightarrow> order_row list" where
  "orders_pipeline eventObjectId matches w =
     (let joined_buyer = lookup (\<lambda>ord u. order_buyer ord = Some (user_id u)) (users w) (orders w);
          with_buyer = unwind joined_buyer;
          joined_event = lookup (\<lambda>r e. order_event (fst r) = event_id e) (events w) with_buyer;
          with_event = unwind joined_event;
          projected = map project_order with_event
      in filter (\<lambda>r. row_eventId r = eventObjectId \<and> matches (row_buyer r)) projected)"

definition Order_aggregate :: "oid \<Rightarrow> (string \<Rightarrow> bool) \<Rightarrow> order_row list action" where
  "Order_aggregate eventObjectId matches = db_op (Query Orders Aggregate) (\<lambda>w.
     (Inr (orders_pipeline eventObjectId matches w), w))"

text \<open>
  \<open>Order.distinct('event._id')\<close> only creates the query object: the \<open>.find(conditions)\<close>
  and the \<open>.countDocuments(conditions)\<close> chained to it replace its operation, so what runs
  is a find, respectively a count, with these conditions. The event of each order found
  is populated, and in it the organizer.
\<close>

record populated_order =
  order_source :: order_doc
  order_event_populated :: "(event_doc \<times> organizer_ref option) option"

definition populateOrder :: "world \<Rightarrow> order_doc \<Rightarrow> populated_order" where
  "populateOrder w ord =
     \<lparr>order_source = ord,
      order_event_populated =
        map_option (\<lambda>e. (e, populate_organizer w (event_organizer e)))
          (find (\<lambda>e. event_id e = order_event ord) (events w))\<rparr>"

definition Order_find_populated ::
    "driver \<Rightarrow> order_doc conditions \<Rightarrow> int \<Rightarrow> int \<Rightarrow> populated_order list action" where
  "Order_find_populated drv conditions skipAmount limit = db_op (Query Orders Find) (\<lambda>w.
     case find_page drv conditions order_createdAt skipAmount limit (orders w) of
       Inl v \<Rightarrow> (Inl v, w)
     | Inr found \<Rightarrow> (Inr (map (populateOrder w) found), w))"

definition Order_countDocuments :: "driver \<Rightarrow> order_doc conditions \<Rightarrow> int action" where
  "Order_countDocuments drv conditions = db_op (Query Orders CountDocuments) (\<lambda>w.
     case count_matching drv conditions (orders w) of
       Inl v \<Rightarrow> (Inl v, w)
     | Inr n \<Rightarrow> (Inr n, w))"

section \<open>The order actions\<close>








definition createOrder :: "driver \<Rightarrow> order_form \<Rightarrow> order_doc action" where
  "createOrder drv order =
     try_catch
       (await connectToDatabase (\<lambda>_.
        await (Order_create drv order) (\<lambda>newOrder.
        resolve (JSON_clone newOrder))))
       handleError"

definition getOrdersByEvent :: "driver \<Rightarrow> string \<Rightarrow> string \<Rightarrow> order_row list action" where
  "getOrdersByEvent drv searchString eventId =
     try_catch
       (await connectToDatabase (\<lambda>_.
        if eventId = [] then throw (new_Error (Some ''Event ID is required''))
        else
          (case ObjectId_of drv eventId of
             None \<Rightarrow> throw (driver_error drv (InvalidObjectId eventId))
           | Some eventObjectId \<Rightarrow>
               (case regex drv searchString ''i'' of
                  None \<Rightarrow> throw (driver_error drv (InvalidRegExp searchString))
                | Some matches \<Rightarrow>
                    await (Order_aggregate eventObjectId matches) (\<lambda>orders.
                    resolve (JSON_clone orders))))))
       handleError"

definition getOrdersByUser ::
    "driver \<Rightarrow> string \<Rightarrow> int option \<Rightarrow> int \<Rightarrow> populated_order page_result action" where
  "getOrdersByUser drv userId limit_arg page =
     (let limit = or_default limit_arg 3 in
      try_catch
        (await connectToDatabase (\<lambda>_.
         let skipAmount = (page - 1) * limit;
             conditions = id_condition drv userId (\<lambda>u ord. order_buyer ord = Some u) in
         await (Order_find_populated drv conditions skipAmount limit) (\<lambda>orders.
         await (Order_countDocuments drv conditions) (\<lambda>ordersCount.
         resolve \<lparr>data = JSON_clone orders, totalPages = Math_ceil_div ordersCount limit\<rparr>))))
        handleError)"

section \<open>\<open>deleteUser\<close>\<close>

text \<open>
  \<open>Promise.all\<close> of two queries: both are started, so both run whatever the other does;
  the result is rejected with the failure of the first one that failed (in the model:
  the first in the array).
\<close>

definition Promise_all2 :: "'a action \<Rightarrow> 'b action \<Rightarrow> ('a \<times> 'b) action" where
  "Promise_all2 p q w =
     (case p w of (r1, w1) \<Rightarrow>
        (case q w1 of (r2, w2) \<Rightarrow>
           (case r1 of
              Inl v \<Rightarrow> (Inl v, w2)
            | Inr x \<Rightarrow> (case r2 of Inl v \<Rightarrow> (Inl v, w2) | Inr y \<Rightarrow> (Inr (x, y), w2)))))"

definition deleteUser :: "driver \<Rightarrow> string \<Rightarrow> user_doc option action" where
  "deleteUser drv clerkId' =
     try_catch
       (await connectToDatabase (\<lambda>_.
        await (User_findOne_clerkId clerkId') (\<lambda>userToDelete.
        case userToDelete of
          None \<Rightarrow> throw (new_Error (Some ''User not found''))
        | Some u \<Rightarrow>
            await (Promise_all2
                     (Event_updateMany_pull_organizer drv (user_events u) (user_id u))
                     (Order_updateMany_unset_buyer (user_orders u))) (\<lambda>_.
            await (User_findByIdAndDelete (user_id u)) (\<lambda>deletedUser.
            await (revalidatePath ''/'') (\<lambda>_.
            resolve (map_option JSON_clone deletedUser)))))))
       handleError"

section \<open>\<open>src/lib/utils.ts\<close>: the URL query helpers\<close>

text \<open>
  The object that \<open>qs.parse\<close> returns is a list of keys with their values, in the order
  of the object's keys: a value is \<open>null\<close> (a key without \<open>=\<close>), a string, or an
  array of strings and \<open>null\<close>s (a key given several times). \<open>qs_parse\<close> and
  \<open>qs_stringifyUrl\<close> are the two functions of the \<open>query-string\<close> package, the second
  one with the option \<open>skipNull: true\<close> the code always passes.
\<close>

datatype qvalue = QNull | QString string | QArray "string option list"

type_synonym query_object = "(string \<times> qvalue) list"

record query_string =
  qs_parse :: "string \<Rightarrow> query_object"
  qs_stringifyUrl :: "string \<Rightarrow> query_object \<Rightarrow> string"

text \<open>\<open>pathname\<close> is \<open>window.location.pathname\<close>.\<close>

definition formUrlQuery :: "query_string \<Rightarrow> string \<Rightarrow> string \<Rightarrow> string \<Rightarrow> string \<Rightarrow> string" where
  "formUrlQuery qs pathname params key value =
     (let currentUrl = qs_parse qs params;
          currentUrl = AList.update key (QString value) currentUrl
      in qs_stringifyUrl qs pathname currentUrl)"

definition removeKeysFromQuery :: "query_string \<Rightarrow> string \<Rightarrow> string \<Rightarrow> string list \<Rightarrow> string" where
  "removeKeysFromQuery qs pathname params keysToRemove =
     (let currentUrl = qs_parse qs params;
          currentUrl = fold AList.delete keysToRemove currentUrl
      in qs_stringifyUrl qs pathname currentUrl)"

section \<open>The \<open>query-string\<close> package\<close>

text \<open>
  The two functions of the package \<open>query-string\<close> that the helpers call, \<open>parse\<close> with the
  default options and \<open>stringifyUrl\<close> with \<open>skipNull\<close>, after the documentation of the
  package; the package itself is no part of the repository. A string is the sequence
  of its UTF-8 bytes, keys are compared byte by byte, and no string holds a lone
  surrogate, on which \<open>encodeURIComponent\<close> throws.
\<close>

text \<open>
  \<open>strict-uri-encode\<close>: \<open>encodeURIComponent\<close>, and then \<open>!\<close>, \<open>'\<close>, \<open>(\<close>, \<open>)\<close> and \<open>*\<close> as well:
  every byte but the letters, the digits and \<open>-\<close>, \<open>_\<close>, \<open>.\<close>, \<open>~\<close> is written \<open>%XX\<close>.
\<close>

definition unreserved :: "char \<Rightarrow> bool" where
  "unreserved c \<longleftrightarrow>
     c \<in> set ''ABCDEFGHIJKLMNOPQRSTUVWXYZabcdefghijklmnopqrstuvwxyz0123456789-_.~''"

definition upper_hex_digit :: "nat \<Rightarrow> char" where
  "upper_hex_digit n = ''0123456789ABCDEF'' ! n"

definition strict_uri_encode :: "string \<Rightarrow> string" where
  "strict_uri_encode s =
     concat (map (\<lambda>c. if unreserved c then [c]
                       else [CHR ''%'', upper_hex_digit (of_char c div 16), upper_hex_digit (of_char c mod 16)]) s)"

text \<open>
  \<open>decode-uri-component\<close>: each \<open>%XX\<close> becomes its byte, and a \<open>%\<close> that two hexadecimal
  digits do not follow stays.
\<close>

definition hex_value :: "char \<Rightarrow> nat option" where
  "hex_value c =
     (let n = of_char c in
      if 48 \<le> n \<and> n \<le> 57 then Some (n - 48)
      else if 65 \<le> n \<and> n \<le> 70 then Some (n - 55)
      else if 97 \<le> n \<and> n \<le> 102 then Some (n - 87)
      else None)"

fun decode_uri_component :: "string \<Rightarrow> string" where
  "decode_uri_component (c # h # l # s) =
     (if c = CHR ''%''
      then (case (hex_value h, hex_value l) of
              (Some a, Some b) \<Rightarrow> char_of (16 * a + b) # decode_uri_component s
            | _ \<Rightarrow> c # decode_uri_component (h # l # s))
      else c # decode_uri_component (h # l # s))"
| "decode_uri_component s = s"

text \<open>\<open>String.prototype.trim\<close>, on ASCII white space, and \<open>split\<close> at a character.\<close>

definition whitespace :: "char \<Rightarrow> bool" where
  "whitespace c \<longleftrightarrow> c \<in> {CHR 0x09, CHR 0x0A, CHR 0x0B, CHR 0x0C, CHR 0x0D, CHR '' ''}"

definition trim :: "string \<Rightarrow> string" where
  "trim s = rev (dropWhile whitespace (rev (dropWhile whitespace s)))"

fun split_on :: "char \<Rightarrow> string \<Rightarrow> string list" where
  "split_on sep [] = [[]]"
| "split_on sep (c # s) =
     (if c = sep then [] # split_on sep s
      else (case split_on sep s of [] \<Rightarrow> [[c]] | x # xs \<Rightarrow> (c # x) # xs))"

text \<open>\<open>split-on-first\<close>: the text before the first separator and the text after it, if there is one.\<close>

definition split_on_first :: "char \<Rightarrow> string \<Rightarrow> string \<times> string option" where
  "split_on_first sep s =
     (if sep \<in> set s
      then (takeWhile (\<lambda>c. c \<noteq> sep) s, Some (tl (dropWhile (\<lambda>c. c \<noteq> sep) s)))
      else (s, None))"

text \<open>
  The formatter of the array format \<open>none\<close>: the first value of a key is stored as it is,
  a later one makes an array: \<open>[].concat(accumulator[key], value)\<close>.
\<close>

fun elements :: "qvalue \<Rightarrow> string option list" where
  "elements QNull = [None]"
| "elements (QString s) = [Some s]"
| "elements (QArray xs) = xs"

definition formatter :: "string \<Rightarrow> string option \<Rightarrow> query_object \<Rightarrow> query_object" where
  "formatter key value accumulator =
     AList.update key
       (case map_of accumulator key of
          None \<Rightarrow> (case value of None \<Rightarrow> QNull | Some v \<Rightarrow> QString v)
        | Some old \<Rightarrow> QArray (elements old @ [value]))
       accumulator"

text \<open>
  \<open>parse(query)\<close>: the query is trimmed and loses one leading \<open>?\<close>, \<open>#\<close> or \<open>&\<close>; of each
  non-empty parameter between the \<open>&\<close>, with \<open>+\<close> read as a space, the key is what precedes
  the first \<open>=\<close> and the value what follows it, \<open>null\<close> without \<open>=\<close>, both decoded; the
  keys of the result are sorted.
\<close>

definition parse :: "string \<Rightarrow> query_object" where
  "parse query =
     (let query = trim query;
          query = (case query of [] \<Rightarrow> [] | c # rest \<Rightarrow> if c \<in> set ''?#&'' then rest else query);
          ret = foldl (\<lambda>ret param.
                    if param = [] then ret
                    else (case split_on_first CHR ''=''
                                 (map (\<lambda>c. if c = CHR ''+'' then CHR '' '' else c) param) of
                            (key, value) \<Rightarrow>
                              formatter (decode_uri_component key)
                                (map_option decode_uri_component value) ret))
                  [] (split_on CHR ''&'' query)
      in if query = [] then []
         else map (\<lambda>key. (key, the (map_of ret key))) (sort (remdups (map fst ret))))"

text \<open>
  \<open>stringify(object, {skipNull: true})\<close>: the keys whose value is not \<open>null\<close>, sorted, each
  written \<open>key=value\<close>, once for each element that is not \<open>null\<close> when the value is an
  array; the non-empty results are joined by \<open>&\<close>.
\<close>

definition stringify :: "query_object \<Rightarrow> string" where
  "stringify object =
     (let keys = sort (remdups (map fst (filter (\<lambda>(k, v). map_of object k \<noteq> Some QNull) object)))
      in join_with ''&'' (filter (\<lambda>x. x \<noteq> []) (map (\<lambda>key.
           case map_of object key of
             None \<Rightarrow> []
           | Some QNull \<Rightarrow> strict_uri_encode key
           | Some (QString value) \<Rightarrow> strict_uri_encode key @ ''='' @ strict_uri_encode value
           | Some (QArray values) \<Rightarrow>
               join_with ''&'' (concat (map (\<lambda>value.
                  case value of
                    None \<Rightarrow> []
                  | Some v \<Rightarrow> [strict_uri_encode key @ ''='' @ strict_uri_encode v]) values)))
         keys)))"

text \<open>
  \<open>stringifyUrl({url, query}, {skipNull: true})\<close>: the URL up to its query, the query of the
  URL updated with the given one (\<open>Object.assign\<close>) and stringified, after a \<open>?\<close> unless
  it is empty, and the hash of the URL.
\<close>

definition extract_query :: "string \<Rightarrow> string" where
  "extract_query input =
     (case dropWhile (\<lambda>c. c \<noteq> CHR ''?'') (takeWhile (\<lambda>c. c \<noteq> CHR ''#'') input) of
        [] \<Rightarrow> [] | _ # rest \<Rightarrow> rest)"

definition stringifyUrl :: "string \<Rightarrow> query_object \<Rightarrow> string" where
  "stringifyUrl input query =
     (let base = takeWhile (\<lambda>c. c \<noteq> CHR ''?'') (takeWhile (\<lambda>c. c \<noteq> CHR ''#'') input);
          hash = dropWhile (\<lambda>c. c \<noteq> CHR ''#'') input;
          merged = fold (\<lambda>key. AList.update key (the (map_of query key))) (map fst query)
                     (parse (extract_query input));
          queryString = stringify merged
      in base @ (if queryString = [] then [] else ''?'' @ queryString) @ hash)"

definition query_string_package :: query_string where
  "query_string_package = \<lparr>qs_parse = parse, qs_stringifyUrl = stringifyUrl\<rparr>"

section \<open>The \<open>Pagination\<close> component\<close>

text \<open>
  The page number of the component is any JavaScript number: a double, taken here as
  the real number it denotes, \<open>NaN\<close>, or an infinity. A comparison of doubles is the
  comparison of these reals. A sum or difference of doubles is the double nearest to
  the exact result: that rounding, the conversion \<open>Number\<close> of a string and
  \<open>Number.prototype.toString\<close> are the runtime's, parameters of the model.
\<close>

datatype js_double = Double real | NotANumber | Infinity | MinusInfinity

record runtime =
  Number_of_string :: "string \<Rightarrow> js_double"
  nearest_double :: "real \<Rightarrow> js_double"
  double_toString :: "js_double \<Rightarrow> string"

text \<open>\<open>a + b\<close> and \<open>a - b\<close>\<close>

fun double_add :: "runtime \<Rightarrow> js_double \<Rightarrow> js_double \<Rightarrow> js_double" where
  "double_add rt (Double a) (Double b) = nearest_double rt (a + b)"
| "double_add rt NotANumber _ = NotANumber"
| "double_add rt _ NotANumber = NotANumber"
| "double_add rt Infinity MinusInfinity = NotANumber"
| "double_add rt MinusInfinity Infinity = NotANumber"
| "double_add rt Infinity _ = Infinity"
| "double_add rt _ Infinity = Infinity"
| "double_add rt MinusInfinity _ = MinusInfinity"
| "double_add rt _ MinusInfinity = MinusInfinity"

fun double_sub :: "runtime \<Rightarrow> js_double \<Rightarrow> js_double \<Rightarrow> js_double" where
  "double_sub rt (Double a) (Double b) = nearest_double rt (a - b)"
| "double_sub rt NotANumber _ = NotANumber"
| "double_sub rt _ NotANumber = NotANumber"
| "double_sub rt Infinity Infinity = NotANumber"
| "double_sub rt MinusInfinity MinusInfinity = NotANumber"
| "double_sub rt Infinity _ = Infinity"
| "double_sub rt _ Infinity = MinusInfinity"
| "double_sub rt MinusInfinity _ = MinusInfinity"
| "double_sub rt _ MinusInfinity = Infinity"

text \<open>\<open>a <= b\<close> and \<open>a >= b\<close>: false as soon as one side is \<open>NaN\<close>.\<close>

fun double_le :: "js_double \<Rightarrow> js_double \<Rightarrow> bool" where
  "double_le NotANumber _ = False"
| "double_le _ NotANumber = False"
| "double_le (Double a) (Double b) = (a \<le> b)"
| "double_le MinusInfinity _ = True"
| "double_le _ Infinity = True"
| "double_le Infinity _ = False"
| "double_le _ MinusInfinity = False"

definition double_ge :: "js_double \<Rightarrow> js_double \<Rightarrow> bool" where
  "double_ge a b = double_le b a"

text \<open>The property \<open>page\<close> is a number or a string, and \<open>Number(page)\<close> its conversion.\<close>

datatype page_prop = PageNumber js_double | PageString string

fun Number_of :: "runtime \<Rightarrow> page_prop \<Rightarrow> js_double" where
  "Number_of rt (PageNumber n) = n"
| "Number_of rt (PageString s) = Number_of_string rt s"

record pagination_props =
  page_of :: page_prop
  totalPages_of :: js_double
  urlParamName :: "string option"

text \<open>
  The browser: the path and the query of the current URL, and the calls of
  \<open>router.push\<close> with their \<open>scroll\<close> option.
\<close>

record browser =
  location_pathname :: string
  searchParams :: string
  pushed :: "(string \<times> bool) list"

definition onClick ::
    "query_string \<Rightarrow> runtime \<Rightarrow> pagination_props \<Rightarrow> string \<Rightarrow> browser \<Rightarrow> browser" where
  "onClick qs rt props btnType b =
     (let pageValue = (if btnType = ''next''
                       then double_add rt (Number_of rt (page_of props)) (Double 1)
                       else double_sub rt (Number_of rt (page_of props)) (Double 1));
          newUrl = formUrlQuery qs (location_pathname b) (searchParams b)
                     (or_else (urlParamName props) ''page'')
                     (double_toString rt pageValue)
      in b\<lparr>pushed := pushed b @ [(newUrl, False)]\<rparr>)"

text \<open>What is rendered: for each button whether it is disabled and what a click on it does.\<close>

record button =
  disabled :: bool
  click :: "browser \<Rightarrow> browser"

record pagination_view =
  Previous :: button
  Next :: button

definition Pagination :: "query_string \<Rightarrow> runtime \<Rightarrow> pagination_props \<Rightarrow> pagination_view" where
  "Pagination qs rt props =
     \<lparr>Previous = \<lparr>disabled = double_le (Number_of rt (page_of props)) (Double 1),
                  click = onClick qs rt props ''prev''\<rparr>,
      Next = \<lparr>disabled = double_ge (Number_of rt (page_of props)) (totalPages_of props),
              click = onClick qs rt props ''next''\<rparr>\<rparr>"

section \<open>Vocabulary of the properties\<close>

text \<open>The events a title query selects, the category a name resolves to, and the events of a category.\<close>

definition title_matches :: "driver \<Rightarrow> string \<Rightarrow> event_doc \<Rightarrow> bool" where
  "title_matches drv query e =
     (query = [] \<or> (case regex_i drv query of None \<Rightarrow> False | Some m \<Rightarrow> m (title (event_data e))))"

definition resolved_category :: "driver \<Rightarrow> string \<Rightarrow> world \<Rightarrow> category_doc option" where
  "resolved_category drv name w =
     (if name = [] then None
      else case regex_i drv name of
             None \<Rightarrow> None
           | Some m \<Rightarrow> find (\<lambda>c. m (category_name c)) (categories w))"

definition in_category :: "category_doc option \<Rightarrow> event_doc \<Rightarrow> bool" where
  "in_category c e = (case c of None \<Rightarrow> True | Some c' \<Rightarrow> event_category e = category_id c')"

text \<open>The document-store queries among the calls of a trace, and the values its calls threw.\<close>

definition queries :: "(db_call \<times> js_value option) list \<Rightarrow> nat" where
  "queries tr = length (filter (\<lambda>entry. fst entry \<noteq> Connect) tr)"

definition thrown :: "(db_call \<times> js_value option) list \<Rightarrow> js_value list" where
  "thrown tr = concat (map (\<lambda>entry. case snd entry of None \<Rightarrow> [] | Some v \<Rightarrow> [v]) tr)"

text \<open>Who may update an event: the event exists and the caller is its organizer.\<close>

definition may_update :: "driver \<Rightarrow> string \<Rightarrow> event_update \<Rightarrow> world \<Rightarrow> bool" where
  "may_update drv userId event w =
     (case ObjectId_of drv (form_id event) of
        None \<Rightarrow> False
      | Some i \<Rightarrow>
          (case find (\<lambda>e. event_id e = i) (events w) of
             None \<Rightarrow> False
           | Some e \<Rightarrow> event_organizer e = userId))"

text \<open>The identifiers of the events on a returned page, in order.\<close>

definition listed_ids :: "js_value + populated_event page_result \<Rightarrow> oid list" where
  "listed_ids result =
     (case result of Inl _ \<Rightarrow> [] | Inr r \<Rightarrow> map (\<lambda>p. event_id (source p)) (data r))"

text \<open>
  The rows \<open>getOrdersByEvent\<close> is to return: of each order of the event whose event document
  and buyer document exist and whose buyer's full name matches, the projection.
\<close>

definition orders_of_event :: "oid \<Rightarrow> (string \<Rightarrow> bool) \<Rightarrow> world \<Rightarrow> order_row list" where
  "orders_of_event eventObjectId matches w =
     List.map_filter (\<lambda>ord.
        case order_buyer ord of
          None \<Rightarrow> None
        | Some b \<Rightarrow>
            (case find (\<lambda>u. user_id u = b) (users w) of
               None \<Rightarrow> None
             | Some u \<Rightarrow>
                 (case find (\<lambda>e. event_id e = order_event ord) (events w) of
                    None \<Rightarrow> None
                  | Some e \<Rightarrow>
                      if order_event ord = eventObjectId
                         \<and> matches (firstName u @ '' '' @ lastName u)
                      then Some \<lparr>row_id = order_id ord,
                                 row_totalAmount = order_totalAmount ord,
                                 row_createdAt = order_createdAt ord,
                                 row_eventTitle = title (event_data e),
                                 row_eventId = eventObjectId,
                                 row_buyer = firstName u @ '' '' @ lastName u\<rparr>
                      else None)))
       (orders w)"


text \<open>The same for a \<open>try\<close> block: a value thrown by the database is what the block throws.\<close>

definition propagates :: "'a action \<Rightarrow> bool" where
  "propagates m \<longleftrightarrow>
     (\<forall>w. \<exists>tr. trace (snd (m w)) = trace w @ tr
        \<and> (thrown tr \<noteq> [] \<longrightarrow> fst (m w) = Inl (hd (thrown tr))))"

definition db_only :: "'a action \<Rightarrow> bool" where
  "db_only m \<longleftrightarrow>
     (\<forall>w. \<exists>tr. trace (snd (m w)) = trace w @ tr
        \<and> thrown tr = (case fst (m w) of Inl v \<Rightarrow> [v] | Inr _ \<Rightarrow> []))"

definition keeps_trace :: "'a action \<Rightarrow> bool" where
  "keeps_trace run \<longleftrightarrow> (\<forall>w. trace (snd (run w)) = trace w)"

text \<open>\<open>performs m P\<close>: a run of \<open>m\<close> that returns has made a number of queries that satisfies \<open>P\<close>.\<close>

definition performs :: "'a action \<Rightarrow> (nat \<Rightarrow> bool) \<Rightarrow> bool" where
  "performs m P \<longleftrightarrow>
     (\<forall>w r w'. m w = (Inr r, w') \<longrightarrow> (\<exists>tr. trace w' = trace w @ tr \<and> P (queries tr)))"

text \<open>The query portion of a URL: what follows the first question mark.\<close>

definition query_of :: "string \<Rightarrow> string" where
  "query_of u = (case dropWhile (\<lambda>c. c \<noteq> CHR ''?'') u of [] \<Rightarrow> [] | _ # rest \<Rightarrow> rest)"

text \<open>
  The values that a key has in a query object, \<open>null\<close> left out, and a key with one of
  its values as \<open>stringify\<close> writes them.
\<close>

definition param_values :: "query_object \<Rightarrow> string \<Rightarrow> string list" where
  "param_values object key =
     (case map_of object key of
        None \<Rightarrow> []
      | Some QNull \<Rightarrow> []
      | Some (QString s) \<Rightarrow> [s]
      | Some (QArray xs) \<Rightarrow> concat (map (\<lambda>x. case x of None \<Rightarrow> [] | Some s \<Rightarrow> [s]) xs))"

definition written :: "string \<Rightarrow> string \<Rightarrow> string" where
  "written key v = strict_uri_encode key @ ''='' @ strict_uri_encode v"

section \<open>A sample driver and sample worlds\<close>

text \<open>
  A driver to run the model on: identifiers are the non-empty strings of hexadecimal
  digits; a pattern without metacharacters matches the strings that contain it,
  whatever the case of the letters when the flag \<open>i\<close> is given; the organizer of an
  event is taken to be no array, and pulling from it is refused.
\<close>

definition lower :: "char \<Rightarrow> char" where
  "lower c = (if 65 \<le> (of_char c :: nat) \<and> (of_char c :: nat) \<le> 90
              then char_of ((of_char c :: nat) + 32) else c)"

fun starts_with :: "string \<Rightarrow> string \<Rightarrow> bool" where
  "starts_with [] ys = True"
| "starts_with (x # xs) [] = False"
| "starts_with (x # xs) (y # ys) = (x = y \<and> starts_with xs ys)"

fun contains :: "string \<Rightarrow> string \<Rightarrow> bool" where
  "contains p [] = (p = [])"
| "contains p (y # ys) = (starts_with p (y # ys) \<or> contains p ys)"

definition sample_driver :: driver where
  "sample_driver =
     \<lparr>ObjectId_of = (\<lambda>s. if s \<noteq> [] \<and> list_all (\<lambda>c. c \<in> set ''0123456789abcdef'') s
                          then Some s else None),
      regex = (\<lambda>p flags.
         if list_ex (\<lambda>c. c \<in> set ''()[]{}*+?|^$.'' \<or> c = CHR 0x5C) p then None
         else if CHR ''i'' \<in> set flags then Some (\<lambda>s. contains (map lower p) (map lower s))
         else Some (\<lambda>s. contains p s)),
      pull_organizer = (\<lambda>i e. Inl (JError ''not an array'' [(''code'', JNumber (Finite 2))])),
      driver_error = (\<lambda>f. JError ''driver'' [(''code'', JNumber (Finite 2))])\<rparr>"

definition alice :: user_doc where
  "alice = \<lparr>firstName = ''Alice'', lastName = ''Moreau'', username = ''alice'', photo = ''a.png'',
            clerkId = ''clerk_a'', email = ''alice@example.org'',
            user_id = ''a1'', user_events = [''e1'', ''e2''], user_orders = [''d2'']\<rparr>"

definition bob :: user_doc where
  "bob = \<lparr>firstName = ''Bob'', lastName = ''Stone'', username = ''bob'', photo = ''b.png'',
          clerkId = ''clerk_b'', email = ''bob@example.org'',
          user_id = ''b2'', user_events = [], user_orders = [''d1'']\<rparr>"

definition sample_form :: "string \<Rightarrow> string \<Rightarrow> event_form" where
  "sample_form t c =
     \<lparr>title = t, description = ''An evening'', location = ''Lyon'', imageUrl = ''i.png'',
      startDateTime = 10, endDateTime = 20, categoryId = c, price = ''15'', isFree = False,
      url = ''https://example.org''\<rparr>"

definition jazz :: event_doc where
  "jazz = \<lparr>event_id = ''e1'', event_data = sample_form ''Jazz Night'' ''c1'',
           event_createdAt = 100, event_category = ''c1'', event_organizer = ''a1''\<rparr>"

definition rust :: event_doc where
  "rust = \<lparr>event_id = ''e2'', event_data = sample_form ''Rust Meetup'' ''c2'',
           event_createdAt = 200, event_category = ''c2'', event_organizer = ''a1''\<rparr>"

definition rock :: event_doc where
  "rock = \<lparr>event_id = ''e3'', event_data = sample_form ''Rock Fest'' ''c1'',
           event_createdAt = 300, event_category = ''c1'', event_organizer = ''b2''\<rparr>"

definition music :: category_doc where
  "music = \<lparr>category_id = ''c1'', category_name = ''Music''\<rparr>"

definition tech :: category_doc where
  "tech = \<lparr>category_id = ''c2'', category_name = ''Tech''\<rparr>"

definition order1 :: order_doc where
  "order1 = \<lparr>order_id = ''d1'', order_createdAt = 400, order_stripeId = ''s1'',
             order_totalAmount = ''15'', order_event = ''e1'', order_buyer = Some ''b2''\<rparr>"

definition order2 :: order_doc where
  "order2 = \<lparr>order_id = ''d2'', order_createdAt = 500, order_stripeId = ''s2'',
             order_totalAmount = ''15'', order_event = ''e3'', order_buyer = Some ''a1''\<rparr>"

text \<open>An order for an event that was deleted since (\<open>deleteEvent\<close> leaves the orders).\<close>

definition order3 :: order_doc where
  "order3 = \<lparr>order_id = ''d3'', order_createdAt = 600, order_stripeId = ''s3'',
             order_totalAmount = ''15'', order_event = ''e9'', order_buyer = Some ''b2''\<rparr>"

definition world0 :: world where
  "world0 =
     \<lparr>users = [alice, bob], events = [jazz, rust, rock], categories = [music, tech],
      orders = [order1, order2, order3], console = [], revalidated = [], trace = [],
      faults = (\<lambda>_. None), new_ids = (\<lambda>n. CHR ''f'' # decimal n), now = 1000\<rparr>"


definition sample_update :: event_update where
  "sample_update =
     \<lparr>title = ''Jazz Night II'', description = ''A second evening'', location = ''Lyon'',
      imageUrl = ''i.png'', startDateTime = 30, endDateTime = 40, categoryId = ''c2'',
      price = ''20'', isFree = False, url = ''https://example.org'', form_id = ''e1''\<rparr>"





text \<open>
  A runtime for the samples. \<open>Number\<close> reads a string of at most fifteen decimal digits,
  the empty one as zero, and takes the strings the samples do not use to \<open>NaN\<close>; no sum
  is rounded, those of the samples being doubles; \<open>toString\<close> writes a number with at
  most one decimal digit.
\<close>

definition digits_value :: "string \<Rightarrow> nat" where
  "digits_value s = foldl (\<lambda>n c. 10 * n + (of_char c - 48)) 0 s"

definition sample_runtime :: runtime where
  "sample_runtime =
     \<lparr>Number_of_string = (\<lambda>s.
         if list_all (\<lambda>c. c \<in> set ''0123456789'') s \<and> length s \<le> 15
         then Double (real (digits_value s)) else NotANumber),
      nearest_double = Double,
      double_toString = (\<lambda>x.
         case x of
           Double a \<Rightarrow>
             (if a < 0 then ''-'' else []) @ decimal (nat \<lfloor>\<bar>a\<bar>\<rfloor>)
             @ (if \<bar>a\<bar> = of_int \<lfloor>\<bar>a\<bar>\<rfloor> then []
                else CHR ''.'' # decimal (nat \<lfloor>(\<bar>a\<bar> - of_int \<lfloor>\<bar>a\<bar>\<rfloor>) * 10\<rfloor>))
         | NotANumber \<Rightarrow> ''NaN''
         | Infinity \<Rightarrow> ''Infinity''
         | MinusInfinity \<Rightarrow> ''-Infinity'')\<rparr>"

text \<open>
  The second of three pages under the parameter \<open>p\<close>; the only page; a page number that
  is no integer; and a page that is no number.
\<close>

definition second_of_three :: pagination_props where
  "second_of_three = \<lparr>page_of = PageString ''2'', totalPages_of = Double 3, urlParamName = Some ''p''\<rparr>"

definition only_page :: pagination_props where
  "only_page = \<lparr>page_of = PageNumber (Double 1), totalPages_of = Double 1, urlParamName = None\<rparr>"

definition fractional_page :: pagination_props where
  "fractional_page =
     \<lparr>page_of = PageNumber (Double (5 / 2)), totalPages_of = Double 3, urlParamName = Some []\<rparr>"

definition no_page :: pagination_props where
  "no_page = \<lparr>page_of = PageString ''two'', totalPages_of = Double 3, urlParamName = None\<rparr>"

definition sample_browser :: browser where
  "sample_browser = \<lparr>location_pathname = ''/events'', searchParams = ''q=jazz&page=2'', pushed = []\<rparr>"

section \<open>Running an action that returns\<close>

text \<open>For a positive limit, \<open>Math_ceil_div\<close> is the least number of pages that hold the count.\<close>

lemma Math_ceil_div_bounds:
  assumes "0 < limit"
  shows "\<exists>n. Math_ceil_div count limit = Finite n \<and> (n - 1) * limit < count \<and> count \<le> n * limit"
proof -
  define q where "q = (- count) div limit"
  define m where "m = (- count) mod limit"
  have n: "Math_ceil_div count limit = Finite (- q)"
    using assms by (simp add: Math_ceil_div_def ceiling_divide_eq_div q_def)
  have split: "q * limit + m = - count" by (simp add: q_def m_def)
  have lo: "0 \<le> m" and hi: "m < limit" using assms by (simp_all add: m_def)
  have a: "(- q - 1) * limit = - (q * limit) - limit" by (simp add: algebra_simps)
  have b: "- q * limit = - (q * limit)" by simp
  have "(- q - 1) * limit < count \<and> count \<le> - q * limit"
    unfolding a b using split lo hi by linarith
  with n show ?thesis by blast
qed

lemma try_catch_handleError_Inr:
  "try_catch body handleError w = (Inr r, w') \<longleftrightarrow> body w = (Inr r, w')"
  by (auto simp: try_catch_def handleError_def await_def console_error_def throw_def
      split: prod.splits sum.splits)

lemma await_Inr:
  "await m k w = (Inr r, w') \<longleftrightarrow> (\<exists>x w1. m w = (Inr x, w1) \<and> k x w1 = (Inr r, w'))"
  by (auto simp: await_def split: prod.splits sum.splits)

lemma db_op_Inr:
  "db_op c run w = (Inr x, w') \<longleftrightarrow>
     faults w (length (trace w)) = None \<and>
     (\<exists>w1. run w = (Inr x, w1) \<and> w' = w1\<lparr>trace := trace w1 @ [(c, None)]\<rparr>)"
  by (auto simp: db_op_def split: option.splits prod.splits sum.splits)

lemma connect_Inr:
  "connectToDatabase w = (Inr x, w') \<longleftrightarrow>
     faults w (length (trace w)) = None \<and> w' = w\<lparr>trace := trace w @ [(Connect, None)]\<rparr>"
  by (auto simp: connectToDatabase_def db_op_Inr resolve_def)

lemma Event_find_populated_Inr:
  "Event_find_populated drv conditions s l w = (Inr found, w') \<Longrightarrow>
     events w' = events w \<and> categories w' = categories w \<and> (\<exists>p. conditions = Inr p)"
  by (auto simp: Event_find_populated_def db_op_Inr find_page_def split: sum.splits)

lemma Event_countDocuments_Inr:
  "Event_countDocuments drv conditions w = (Inr n, w') \<Longrightarrow> conditions = Inr p \<Longrightarrow>
     n = int (length (filter p (events w)))"
  by (auto simp: Event_countDocuments_def db_op_Inr count_matching_def split: sum.splits)



lemma getCategoryByName_Inr:
  "getCategoryByName drv name w = (Inr c, w') \<Longrightarrow>
     events w' = events w \<and> categories w' = categories w \<and>
     (\<exists>m. regex_i drv name = Some m \<and> c = find (\<lambda>c. m (category_name c)) (categories w))"
  by (auto simp: getCategoryByName_def Category_findOne_name_regex_def db_op_Inr throw_def
      split: option.splits)


lemma and_conditions_Inr:
  "and_conditions a b = Inr p \<longleftrightarrow> (\<exists>q r. a = Inr q \<and> b = Inr r \<and> p = (\<lambda>d. q d \<and> r d))"
  by (auto simp: and_conditions_def split: sum.splits)

lemma regex_condition_Inr:
  "regex_condition drv pattern field = Inr p \<longleftrightarrow>
     (\<exists>m. regex_i drv pattern = Some m \<and> p = (\<lambda>d. m (field d)))"
  by (auto simp: regex_condition_def split: option.splits)


lemma getAllEvents_count:
  assumes "getAllEvents drv query limit_arg page cat w = (Inr r, w')"
  shows "totalPages r = Math_ceil_div
     (int (length (filter (\<lambda>e. title_matches drv query e \<and> in_category (resolved_category drv cat w) e)
        (events w))))
     (or_default limit_arg 6)"
proof -
  from assms obtain w1 c w2 found w3 n w4 where
    c: "(if cat \<noteq> [] then getCategoryByName drv cat else resolve None)
          (w\<lparr>trace := trace w @ [(Connect, None)]\<rparr>) = (Inr c, w2)"
    and f: "Event_find_populated drv
          (and_conditions (if query \<noteq> [] then regex_condition drv query (\<lambda>e. title (event_data e))
                           else no_condition)
             (case c of Some c' \<Rightarrow> Inr (\<lambda>e. event_category e = category_id c') | None \<Rightarrow> no_condition))
          ((page - 1) * or_default limit_arg 6) (or_default limit_arg 6) w2 = (Inr found, w3)"
    and n: "Event_countDocuments drv
          (and_conditions (if query \<noteq> [] then regex_condition drv query (\<lambda>e. title (event_data e))
                           else no_condition)
             (case c of Some c' \<Rightarrow> Inr (\<lambda>e. event_category e = category_id c') | None \<Rightarrow> no_condition))
          w3 = (Inr n, w4)"
    and r: "r = \<lparr>data = JSON_clone found, totalPages = Math_ceil_div n (or_default limit_arg 6)\<rparr>"
    by (auto simp: getAllEvents_def Let_def try_catch_handleError_Inr await_Inr connect_Inr
        resolve_def)
  have c_eq: "c = resolved_category drv cat w" and ev2: "events w2 = events w"
    using c by (auto simp: resolved_category_def resolve_def dest!: getCategoryByName_Inr
        split: if_splits)
  from Event_find_populated_Inr[OF f] have ev3: "events w3 = events w2" by simp
  from Event_find_populated_Inr[OF f] obtain p :: "event_doc \<Rightarrow> bool" where p: "and_conditions
        (if query \<noteq> [] then regex_condition drv query (\<lambda>e. title (event_data e)) else no_condition)
        (case c of Some c' \<Rightarrow> Inr (\<lambda>e. event_category e = category_id c') | None \<Rightarrow> no_condition)
        = Inr p"
    by (elim conjE exE)
  have n_eq: "n = int (length (filter p (events w)))"
    using Event_countDocuments_Inr[OF n p] ev3 ev2 by simp
  have "p = (\<lambda>e. title_matches drv query e \<and> in_category c e)"
    using p by (auto simp: and_conditions_Inr regex_condition_Inr no_condition_def
        title_matches_def in_category_def fun_eq_iff split: if_splits option.splits)
  then show ?thesis using r n_eq c_eq by simp
qed








section \<open>The two versions of \<open>getAllEvents\<close>\<close>

lemma await_resolve: "await (resolve x) k = k x"
  by (simp add: await_def resolve_def fun_eq_iff)

lemma and_no_condition: "and_conditions no_condition no_condition = no_condition"
  by (simp add: and_conditions_def no_condition_def)

text \<open>
  C7, as stated, fails: asked for the second page of two events each, the later version
  returns the third event and the first version the first two again.
\<close>

theorem getAllEvents_versions_differ:
  "listed_ids (fst (getAllEvents sample_driver '''' (Some 2) 2 '''' world0)) = [''e1'']
   \<and> listed_ids (fst (getAllEvents_initial sample_driver '''' (Some 2) 2 '''' world0))
       = [''e3'', ''e2'']"
  by code_simp

text \<open>
  C7, amended: without a title query and without a category, on the first page, the later
  version of \<open>getAllEvents\<close> is the first version, for every limit and every world;
  the first version ignores its \<open>query\<close>, \<open>page\<close> and \<open>category\<close>.
\<close>

theorem getAllEvents_versions_agree:
  "getAllEvents drv [] limit_arg 1 [] = getAllEvents_initial drv query limit_arg page cat"
  by (simp add: getAllEvents_def getAllEvents_initial_def Let_def await_resolve and_no_condition)

text \<open>On the first page of the sample world, whatever the first version is given besides.\<close>

theorem getAllEvents_versions_agree_witness:
  "getAllEvents sample_driver [] (Some 2) 1 [] world0
     = getAllEvents_initial sample_driver ''jazz'' (Some 2) 7 ''tech'' world0"
  using getAllEvents_versions_agree[of sample_driver "Some 2" "''jazz''" 7 "''tech''"]
  by simp

section \<open>The category filter of \<open>getAllEvents\<close>\<close>

lemma populateEvent_cong:
  "users w1 = users w \<Longrightarrow> categories w1 = categories w \<Longrightarrow> populateEvent w1 = populateEvent w"
  by (simp add: populateEvent_def populate_organizer_def fun_eq_iff)

lemma Event_find_populated_found:
  assumes "Event_find_populated drv conditions s l w = (Inr found, w')" and "conditions = Inr p"
  shows "found = map (populateEvent w)
      (limit_docs l (drop (nat s) (sort_createdAt_desc event_createdAt (filter p (events w)))))"
  using assms
  by (auto simp: Event_find_populated_def db_op_Inr find_page_def split: sum.splits if_splits)

lemma getCategoryByName_world:
  "getCategoryByName drv name w = (Inr c, w') \<Longrightarrow> users w' = users w"
  by (auto simp: getCategoryByName_def Category_findOne_name_regex_def db_op_Inr throw_def
      split: option.splits)

text \<open>
  C9, as stated, fails: a supplied name that matches no stored category resolves to
  no category, the category condition is dropped, and events of every category satisfy
  the conditions. In the sample world no category is named \<open>opera\<close>, and all three
  events, of two categories, are returned.
\<close>

theorem category_filter_unmatched_name:
  "(case regex sample_driver ''opera'' ''i'' of
      Some m \<Rightarrow> find (\<lambda>c. m (category_name c)) (categories world0) = None
    | None \<Rightarrow> False)
   \<and> (case fst (getAllEvents sample_driver [] (Some 5) 1 ''opera'' world0) of
        Inr r \<Rightarrow> map (\<lambda>p. (event_id (source p), event_category (source p))) (data r)
                  = [(''e3'', ''c1''), (''e2'', ''c2''), (''e1'', ''c1'')]
      | Inl _ \<Rightarrow> False)"
  by code_simp

text \<open>
  C9, amended. When \<open>getAllEvents\<close> is given a category name and returns, the name was
  accepted by the database as a regular expression with the option \<open>i\<close>, and the category
  is the first stored one whose name it matches. If there is one, the page is cut from
  the events that satisfy the title condition and whose category field is the \<open>_id\<close> of
  that category: every event on the page has it, and \<open>totalPages\<close> counts these events
  only. If there is none, the page is cut from the events that satisfy the title
  condition, of whatever category.
\<close>

theorem category_filter:
  assumes "cat \<noteq> []"
    and "getAllEvents drv query limit_arg page cat w = (Inr r, w')"
  shows "\<exists>m. regex drv cat ''i'' = Some m \<and>
     (case find (\<lambda>c. m (category_name c)) (categories w) of
        Some c \<Rightarrow>
          data r = map (populateEvent w)
             (limit_docs (or_default limit_arg 6)
                (drop (nat ((page - 1) * or_default limit_arg 6))
                   (sort_createdAt_desc event_createdAt
                      (filter (\<lambda>e. title_matches drv query e \<and> event_category e = category_id c)
                         (events w)))))
          \<and> (\<forall>p \<in> set (data r). event_category (source p) = category_id c)
          \<and> totalPages r = Math_ceil_div
               (int (length (filter (\<lambda>e. title_matches drv query e
                                         \<and> event_category e = category_id c) (events w))))
               (or_default limit_arg 6)
      | None \<Rightarrow>
          data r = map (populateEvent w)
             (limit_docs (or_default limit_arg 6)
                (drop (nat ((page - 1) * or_default limit_arg 6))
                   (sort_createdAt_desc event_createdAt
                      (filter (title_matches drv query) (events w)))))
          \<and> totalPages r = Math_ceil_div
               (int (length (filter (title_matches drv query) (events w))))
               (or_default limit_arg 6))"
proof -
  from assms obtain c w2 found w3 n w4 where
    c: "getCategoryByName drv cat (w\<lparr>trace := trace w @ [(Connect, None)]\<rparr>) = (Inr c, w2)"
    and f: "Event_find_populated drv
          (and_conditions (if query \<noteq> [] then regex_condition drv query (\<lambda>e. title (event_data e))
                           else no_condition)
             (case c of Some c' \<Rightarrow> Inr (\<lambda>e. event_category e = category_id c') | None \<Rightarrow> no_condition))
          ((page - 1) * or_default limit_arg 6) (or_default limit_arg 6) w2 = (Inr found, w3)"
    and r: "data r = found"
    by (auto simp: getAllEvents_def Let_def try_catch_handleError_Inr await_Inr connect_Inr
        resolve_def JSON_clone_def)
  from getCategoryByName_Inr[OF c] obtain m where m: "regex drv cat ''i'' = Some m"
    and cm: "c = find (\<lambda>c. m (category_name c)) (categories w)"
    and ev2: "events w2 = events w" and cat2: "categories w2 = categories w"
    by auto
  have us2: "users w2 = users w" using getCategoryByName_world[OF c] by simp
  have c_eq: "resolved_category drv cat w = c"
    using m cm assms(1) by (simp add: resolved_category_def)
  from Event_find_populated_Inr[OF f] obtain p :: "event_doc \<Rightarrow> bool" where p: "and_conditions
        (if query \<noteq> [] then regex_condition drv query (\<lambda>e. title (event_data e)) else no_condition)
        (case c of Some c' \<Rightarrow> Inr (\<lambda>e. event_category e = category_id c') | None \<Rightarrow> no_condition)
        = Inr p"
    by (elim conjE exE)
  have p_eq: "p = (\<lambda>e. title_matches drv query e \<and> in_category c e)"
    using p by (auto simp: and_conditions_Inr regex_condition_Inr no_condition_def
        title_matches_def in_category_def fun_eq_iff split: if_splits option.splits)
  have found: "found = map (populateEvent w)
      (limit_docs (or_default limit_arg 6) (drop (nat ((page - 1) * or_default limit_arg 6))
         (sort_createdAt_desc event_createdAt (filter p (events w)))))"
    using Event_find_populated_found[OF f p] populateEvent_cong[OF us2 cat2] ev2 by simp
  have only: "\<forall>q \<in> set found. p (source q)"
    unfolding found
    by (auto simp: populateEvent_def limit_docs_def sort_createdAt_desc_def
        dest!: in_set_takeD in_set_dropD split: if_splits)
  have pages: "totalPages r = Math_ceil_div (int (length (filter p (events w))))
      (or_default limit_arg 6)"
    using getAllEvents_count[OF assms(2)] by (simp add: c_eq p_eq)
  have "case c of
        Some c' \<Rightarrow>
          data r = map (populateEvent w)
             (limit_docs (or_default limit_arg 6)
                (drop (nat ((page - 1) * or_default limit_arg 6))
                   (sort_createdAt_desc event_createdAt
                      (filter (\<lambda>e. title_matches drv query e \<and> event_category e = category_id c')
                         (events w)))))
          \<and> (\<forall>p \<in> set (data r). event_category (source p) = category_id c')
          \<and> totalPages r = Math_ceil_div
               (int (length (filter (\<lambda>e. title_matches drv query e
                                         \<and> event_category e = category_id c') (events w))))
               (or_default limit_arg 6)
      | None \<Rightarrow>
          data r = map (populateEvent w)
             (limit_docs (or_default limit_arg 6)
                (drop (nat ((page - 1) * or_default limit_arg 6))
                   (sort_createdAt_desc event_createdAt
                      (filter (title_matches drv query) (events w)))))
          \<and> totalPages r = Math_ceil_div
               (int (length (filter (title_matches drv query) (events w))))
               (or_default limit_arg 6)"
  proof (cases c)
    case None
    then show ?thesis using r found pages by (simp add: p_eq in_category_def)
  next
    case (Some c')
    then show ?thesis using r found pages only by (simp add: p_eq in_category_def)
  qed
  then show ?thesis using m cm by simp
qed

text \<open>
  In the sample world the name \<open>mus\<close> resolves to the category Music, which has two of the
  three events.
\<close>

lemma sample_getAllEvents_returns:
  "(case fst (getAllEvents sample_driver [] (Some 5) 1 ''mus'' world0) of
      Inr _ \<Rightarrow> True | Inl _ \<Rightarrow> False)"
  by code_simp

lemma sample_resolved:
  "(case regex sample_driver ''mus'' ''i'' of
      Some m \<Rightarrow> find (\<lambda>c. m (category_name c)) (categories world0) = Some music
    | None \<Rightarrow> False)"
  by code_simp

theorem category_filter_witness:
  "\<exists>r w'. getAllEvents sample_driver [] (Some 5) 1 ''mus'' world0 = (Inr r, w')
     \<and> map (\<lambda>p. event_id (source p)) (data r) = [''e3'', ''e1'']
     \<and> (\<forall>p \<in> set (data r). event_category (source p) = ''c1'')
     \<and> totalPages r = Finite 1"
proof -
  obtain r where "fst (getAllEvents sample_driver [] (Some 5) 1 ''mus'' world0) = Inr r"
    using sample_getAllEvents_returns by (auto split: sum.splits)
  then have run: "getAllEvents sample_driver [] (Some 5) 1 ''mus'' world0
      = (Inr r, snd (getAllEvents sample_driver [] (Some 5) 1 ''mus'' world0))"
    by (metis prod.collapse)
  have name: "''mus'' \<noteq> []" by simp
  from category_filter[OF name run] obtain m where m: "regex sample_driver ''mus'' ''i'' = Some m"
    and page: "data r = map (populateEvent world0)
             (limit_docs (or_default (Some 5) 6)
                (drop (nat ((1 - 1) * or_default (Some 5) 6))
                   (sort_createdAt_desc event_createdAt
                      (filter (\<lambda>e. title_matches sample_driver [] e \<and> event_category e = category_id music)
                         (events world0)))))"
    and only: "\<forall>p \<in> set (data r). event_category (source p) = category_id music"
    and pages: "totalPages r = Math_ceil_div
               (int (length (filter (\<lambda>e. title_matches sample_driver [] e
                                         \<and> event_category e = category_id music) (events world0))))
               (or_default (Some 5) 6)"
    using sample_resolved by auto
  have "map (\<lambda>p. event_id (source p)) (data r) = [''e3'', ''e1'']"
    unfolding page
    by (simp add: populateEvent_def limit_docs_def sort_createdAt_desc_def or_default_def
        title_matches_def world0_def jazz_def rust_def rock_def music_def)
  moreover have "totalPages r = Finite 1"
    unfolding pages
    by (simp add: Math_ceil_div_def or_default_def title_matches_def world0_def jazz_def
        rust_def rock_def music_def)
  ultimately show ?thesis using run only by (auto simp: music_def)
qed

section \<open>\<open>updateEvent\<close>\<close>

text \<open>
  C3. When no event has the identifier \<open>event._id\<close>, or the organizer of the event found
  is not \<open>userId\<close>, \<open>updateEvent\<close> throws and leaves every collection (and the
  revalidated paths) as it was; so the events are modified only for the organizer.
\<close>

theorem updateEvent_guard:
  "(\<not> may_update drv userId event w \<longrightarrow>
      (\<exists>v. fst (updateEvent drv userId event path w) = Inl v)
      \<and> events (snd (updateEvent drv userId event path w)) = events w
      \<and> users (snd (updateEvent drv userId event path w)) = users w
      \<and> categories (snd (updateEvent drv userId event path w)) = categories w
      \<and> orders (snd (updateEvent drv userId event path w)) = orders w
      \<and> revalidated (snd (updateEvent drv userId event path w)) = revalidated w)
   \<and> (events (snd (updateEvent drv userId event path w)) \<noteq> events w \<longrightarrow>
        may_update drv userId event w)"
  by (auto simp: updateEvent_def may_update_def try_catch_def await_def connectToDatabase_def
      db_op_def resolve_def throw_def handleError_def console_error_def Event_findById_def
      cast_failed_def Event_findByIdAndUpdate_def revalidatePath_def
      split: option.splits prod.splits sum.splits if_splits)

text \<open>
  In the sample world the event \<open>e1\<close> belongs to \<open>a1\<close>: \<open>b2\<close> is refused and nothing changes,
  \<open>a1\<close> changes it.
\<close>

lemma sample_update_refused: "\<not> may_update sample_driver ''b2'' sample_update world0"
  by code_simp

lemma sample_update_done:
  "events (snd (updateEvent sample_driver ''a1'' sample_update ''/'' world0)) \<noteq> events world0"
  by code_simp

theorem updateEvent_guard_witness:
  "\<not> may_update sample_driver ''b2'' sample_update world0
   \<and> (\<exists>v. fst (updateEvent sample_driver ''b2'' sample_update ''/'' world0) = Inl v)
   \<and> events (snd (updateEvent sample_driver ''b2'' sample_update ''/'' world0)) = events world0
   \<and> events (snd (updateEvent sample_driver ''a1'' sample_update ''/'' world0)) \<noteq> events world0
   \<and> may_update sample_driver ''a1'' sample_update world0"
  using updateEvent_guard[of sample_driver "''b2''" sample_update world0 "''/''"]
    updateEvent_guard[of sample_driver "''a1''" sample_update world0 "''/''"]
    sample_update_refused sample_update_done
  by blast

section \<open>\<open>getOrdersByEvent\<close>\<close>

lemma filter_unique_key:
  "distinct (map f xs) \<Longrightarrow>
     filter (\<lambda>x. f x = a) xs = (case find (\<lambda>x. f x = a) xs of None \<Rightarrow> [] | Some x \<Rightarrow> [x])"
proof (induction xs)
  case Nil
  then show ?case by simp
next
  case (Cons x xs)
  show ?case
  proof (cases "f x = a")
    case True
    with Cons.prems have "\<forall>y \<in> set xs. f y \<noteq> a" by (auto simp: image_iff)
    then have "filter (\<lambda>x. f x = a) xs = []" by (simp add: filter_empty_conv)
    with True show ?thesis by simp
  next
    case False
    with Cons show ?thesis by simp
  qed
qed

lemma find_key: "find (\<lambda>x. f x = a) xs = Some x \<Longrightarrow> f x = a"
  by (induction xs) (auto split: if_splits)

lemma pipeline_rows:
  assumes us: "distinct (map user_id us)" and es: "distinct (map event_id es)"
  shows "filter (\<lambda>r. row_eventId r = i \<and> m (row_buyer r))
      (map project_order
        (unwind (lookup (\<lambda>r e. order_event (fst r) = event_id e) es
           (unwind (lookup (\<lambda>ord u. order_buyer ord = Some (user_id u)) us os)))))
     = List.map_filter (\<lambda>ord.
        case order_buyer ord of
          None \<Rightarrow> None
        | Some b \<Rightarrow>
            (case find (\<lambda>u. user_id u = b) us of
               None \<Rightarrow> None
             | Some u \<Rightarrow>
                 (case find (\<lambda>e. event_id e = order_event ord) es of
                    None \<Rightarrow> None
                  | Some e \<Rightarrow>
                      if order_event ord = i \<and> m (firstName u @ '' '' @ lastName u)
                      then Some \<lparr>row_id = order_id ord,
                                 row_totalAmount = order_totalAmount ord,
                                 row_createdAt = order_createdAt ord,
                                 row_eventTitle = title (event_data e),
                                 row_eventId = i,
                                 row_buyer = firstName u @ '' '' @ lastName u\<rparr>
                      else None))) os"
proof (induction os)
  case Nil
  then show ?case by (simp add: lookup_def unwind_def List.map_filter_simps)
next
  case (Cons ord os)
  have buyers: "filter (\<lambda>u. order_buyer ord = Some (user_id u)) us
      = (case order_buyer ord of None \<Rightarrow> []
         | Some b \<Rightarrow> (case find (\<lambda>u. user_id u = b) us of None \<Rightarrow> [] | Some u \<Rightarrow> [u]))"
  proof (cases "order_buyer ord")
    case None
    then show ?thesis by simp
  next
    case (Some b)
    have "filter (\<lambda>u. order_buyer ord = Some (user_id u)) us = filter (\<lambda>u. user_id u = b) us"
      using Some by (auto intro: filter_cong)
    then show ?thesis using Some filter_unique_key[OF us, of b] by simp
  qed
  have evs: "filter (\<lambda>e. order_event ord = event_id e) es
      = (case find (\<lambda>e. event_id e = order_event ord) es of None \<Rightarrow> [] | Some e \<Rightarrow> [e])"
  proof -
    have "filter (\<lambda>e. order_event ord = event_id e) es = filter (\<lambda>e. event_id e = order_event ord) es"
      by (auto intro: filter_cong)
    then show ?thesis using filter_unique_key[OF es, of "order_event ord"] by simp
  qed
  show ?case
    using Cons.IH
    by (auto simp: lookup_def unwind_def List.map_filter_simps buyers evs project_order_def
        dest: find_key split: option.splits)
qed

lemma orders_of_event_trace [simp]:
  "orders_of_event i m (w\<lparr>trace := t\<rparr>) = orders_of_event i m w"
  by (simp add: orders_of_event_def cong: option.case_cong)

lemma orders_pipeline_rows:
  assumes "distinct (map user_id (users w))" and "distinct (map event_id (events w))"
  shows "orders_pipeline i m w = orders_of_event i m w"
  unfolding orders_pipeline_def orders_of_event_def Let_def
  by (rule pipeline_rows[OF assms])

text \<open>
  C5, amended. Given a non-empty \<open>eventId\<close> that casts to an \<open>ObjectId\<close> and a
  \<open>searchString\<close> that is a regular expression, when the two calls to the database
  succeed and identifiers are unique, \<open>getOrdersByEvent\<close> returns exactly the orders
  of that event whose event document and buyer document exist and whose buyer's full
  name matches, each projected; with an empty \<open>eventId\<close> it throws.
\<close>

theorem getOrdersByEvent_rows:
  "(eventId \<noteq> [] \<longrightarrow> ObjectId_of drv eventId = Some i \<longrightarrow> regex_i drv searchString = Some m \<longrightarrow>
      faults w (length (trace w)) = None \<longrightarrow> faults w (Suc (length (trace w))) = None \<longrightarrow>
      distinct (map user_id (users w)) \<longrightarrow> distinct (map event_id (events w)) \<longrightarrow>
      fst (getOrdersByEvent drv searchString eventId w) = Inr (orders_of_event i m w))
   \<and> (eventId = [] \<longrightarrow> (\<exists>v. fst (getOrdersByEvent drv searchString eventId w) = Inl v))"
  by (auto simp: getOrdersByEvent_def try_catch_def await_def connectToDatabase_def db_op_def
      resolve_def throw_def handleError_def console_error_def Order_aggregate_def JSON_clone_def
      orders_pipeline_rows split: option.splits)

text \<open>
  C5, as stated, fails: the order \<open>d3\<close> is for the event \<open>e9\<close> and its buyer's name matches
  the empty pattern, but the event document is gone and the order is not returned.
\<close>

theorem getOrdersByEvent_drops_dangling:
  "fst (getOrdersByEvent sample_driver [] ''e9'' world0) = Inr []
   \<and> order3 \<in> set (orders world0) \<and> order_event order3 = ''e9''
   \<and> order_buyer order3 = Some (user_id bob) \<and> bob \<in> set (users world0)
   \<and> (case regex_i sample_driver [] of
         Some m \<Rightarrow> m (firstName bob @ '' '' @ lastName bob) | None \<Rightarrow> False)"
  by code_simp

text \<open>In the sample world, the orders of \<open>e1\<close> bought by a Bob.\<close>

lemma sample_rows:
  "orders_of_event ''e1'' (\<lambda>s. contains (map lower ''bob'') (map lower s)) world0
     = [\<lparr>row_id = ''d1'', row_totalAmount = ''15'', row_createdAt = 400,
         row_eventTitle = ''Jazz Night'', row_eventId = ''e1'', row_buyer = ''Bob Stone''\<rparr>]"
  by code_simp

theorem getOrdersByEvent_rows_witness:
  "fst (getOrdersByEvent sample_driver ''bob'' ''e1'' world0)
     = Inr [\<lparr>row_id = ''d1'', row_totalAmount = ''15'', row_createdAt = 400,
              row_eventTitle = ''Jazz Night'', row_eventId = ''e1'', row_buyer = ''Bob Stone''\<rparr>]
   \<and> (\<exists>v. fst (getOrdersByEvent sample_driver ''bob'' [] world0) = Inl v)"
proof -
  have h1: "''e1'' \<noteq> []" by simp
  have h2: "ObjectId_of sample_driver ''e1'' = Some ''e1''" by (simp add: sample_driver_def)
  have h3: "regex_i sample_driver ''bob'' = Some (\<lambda>s. contains (map lower ''bob'') (map lower s))"
    by (simp add: sample_driver_def)
  have h4: "faults world0 (length (trace world0)) = None"
    and h5: "faults world0 (Suc (length (trace world0))) = None"
    by (simp_all add: world0_def)
  have h6: "distinct (map user_id (users world0))" by (simp add: world0_def alice_def bob_def)
  have h7: "distinct (map event_id (events world0))"
    by (simp add: world0_def jazz_def rust_def rock_def)
  show ?thesis
    using getOrdersByEvent_rows[THEN conjunct1, rule_format, OF h1 h2 h3 h4 h5 h6 h7]
      getOrdersByEvent_rows[THEN conjunct2, rule_format, OF refl, of sample_driver "''bob''" world0]
      sample_rows
    by simp
qed

section \<open>\<open>deleteUser\<close> and the back-references\<close>










lemma update_matching_refused:
  "x \<in> set xs \<Longrightarrow> P x \<Longrightarrow> f x = Inl v \<Longrightarrow> fst (update_matching P f xs) \<noteq> None"
  by (induction xs) (auto split: sum.splits prod.splits)

text \<open>
  Should the database refuse the pull on one of the listed events, \<open>deleteUser\<close> throws
  and the user stays.
\<close>

lemma deleteUser_refused:
  assumes "find (\<lambda>x. clerkId x = clerkId') (users w) = Some u"
    and "e \<in> set (events w)" and "event_id e \<in> set (user_events u)"
    and "pull_organizer drv (user_id u) e = Inl v"
  shows "(\<exists>v'. fst (deleteUser drv clerkId' w) = Inl v')
     \<and> users (snd (deleteUser drv clerkId' w)) = users w"
proof -
  obtain v' es where "update_matching (\<lambda>e. event_id e \<in> set (user_events u))
      (pull_organizer drv (user_id u)) (events w) = (Some v', es)"
    using update_matching_refused[OF assms(2), of "\<lambda>e. event_id e \<in> set (user_events u)"
        "pull_organizer drv (user_id u)" v] assms(3,4)
    by (cases "update_matching (\<lambda>e. event_id e \<in> set (user_events u))
      (pull_organizer drv (user_id u)) (events w)") auto
  then show ?thesis
    using assms(1)
    by (auto simp: deleteUser_def try_catch_def await_def connectToDatabase_def db_op_def
      Promise_all2_def User_findOne_clerkId_def Event_updateMany_pull_organizer_def
      Order_updateMany_unset_buyer_def handleError_def console_error_def throw_def resolve_def
      split: option.splits)
qed






section \<open>The error policy\<close>

lemma thrown_simps [simp]:
  "thrown [] = []" "thrown [(c, None)] = []" "thrown [(c, Some v)] = [v]"
  "thrown (xs @ ys) = thrown xs @ thrown ys"
  by (simp_all add: thrown_def)

lemma db_only_db_op:
  assumes "keeps_trace run"
  shows "db_only (db_op c run)"
  unfolding db_only_def
proof
  fix w
  show "\<exists>tr. trace (snd (db_op c run w)) = trace w @ tr
        \<and> thrown tr = (case fst (db_op c run w) of Inl v \<Rightarrow> [v] | Inr _ \<Rightarrow> [])"
  proof (cases "faults w (length (trace w))")
    case (Some v)
    then show ?thesis by (simp add: db_op_def)
  next
    case None
    obtain r w1 where run: "run w = (r, w1)" by (cases "run w")
    then have "trace w1 = trace w" using assms by (auto simp: keeps_trace_def dest: spec[of _ w])
    then show ?thesis using None run by (cases r) (simp_all add: db_op_def)
  qed
qed

lemma db_only_propagates: "db_only m \<Longrightarrow> propagates m"
  unfolding db_only_def propagates_def
  by (metis list.sel(1) old.sum.simps(5) old.sum.simps(6) sum.exhaust)

lemma propagates_db_op: "keeps_trace run \<Longrightarrow> propagates (db_op c run)"
  by (simp add: db_only_db_op db_only_propagates)








lemma keeps_trace_ops:
  "keeps_trace (resolve x)"
  "keeps_trace (throw v)"
  "keeps_trace (cast_failed drv s)"
  by (simp_all add: keeps_trace_def resolve_def throw_def cast_failed_def)








section \<open>The queries of an invocation\<close>

lemma queries_simps [simp]:
  "queries [] = 0" "queries [(Connect, x)] = 0" "queries [(Query c mth, x)] = 1"
  "queries (xs @ ys) = queries xs + queries ys"
  by (simp_all add: queries_def)

lemma performs_resolve: "P 0 \<Longrightarrow> performs (resolve x) P"
  by (simp add: performs_def resolve_def)

lemma performs_throw: "performs (throw v) P"
  by (simp add: performs_def throw_def)

lemma performs_console_log: "P 0 \<Longrightarrow> performs (console_log v) P"
  by (auto simp: performs_def console_log_def)

lemma performs_revalidatePath: "P 0 \<Longrightarrow> performs (revalidatePath p) P"
  by (auto simp: performs_def revalidatePath_def)

lemma performs_db_op:
  assumes "keeps_trace run" and "P (queries [(c, None)])"
  shows "performs (db_op c run) P"
  unfolding performs_def
proof (intro allI impI)
  fix w r w'
  assume "db_op c run w = (Inr r, w')"
  then obtain w1 where "run w = (Inr r, w1)" and w': "w' = w1\<lparr>trace := trace w1 @ [(c, None)]\<rparr>"
    by (auto simp: db_op_Inr)
  then have "trace w1 = trace w" using assms(1) by (auto simp: keeps_trace_def dest: spec[of _ w])
  then show "\<exists>tr. trace w' = trace w @ tr \<and> P (queries tr)" using w' assms(2) by auto
qed

lemma performs_await:
  assumes m: "performs m (\<lambda>a. a = i)" and k: "\<And>x. performs (k x) (\<lambda>b. P (i + b))"
  shows "performs (await m k) P"
  unfolding performs_def
proof (intro allI impI)
  fix w r w'
  assume "await m k w = (Inr r, w')"
  then obtain x w1 where 1: "m w = (Inr x, w1)" and 2: "k x w1 = (Inr r, w')"
    by (auto simp: await_Inr)
  from m 1 obtain tr1 where t1: "trace w1 = trace w @ tr1" and q1: "queries tr1 = i"
    unfolding performs_def by blast
  from k[of x] 2 obtain tr2 where t2: "trace w' = trace w1 @ tr2" and q2: "P (i + queries tr2)"
    unfolding performs_def by blast
  have "trace w' = trace w @ (tr1 @ tr2)" using t1 t2 by simp
  moreover have "P (queries (tr1 @ tr2))" using q1 q2 by simp
  ultimately show "\<exists>tr. trace w' = trace w @ tr \<and> P (queries tr)" by blast
qed

lemma performs_Promise_all2:
  assumes p: "performs p (\<lambda>a. a = i)" and q: "performs q (\<lambda>b. b = j)" and P: "P (i + j)"
  shows "performs (Promise_all2 p q) P"
  unfolding performs_def
proof (intro allI impI)
  fix w r w'
  assume "Promise_all2 p q w = (Inr r, w')"
  then obtain x w1 y where 1: "p w = (Inr x, w1)" and 2: "q w1 = (Inr y, w')"
    by (auto simp: Promise_all2_def split: prod.splits sum.splits)
  from p 1 obtain tr1 where t1: "trace w1 = trace w @ tr1" and q1: "queries tr1 = i"
    unfolding performs_def by blast
  from q 2 obtain tr2 where t2: "trace w' = trace w1 @ tr2" and q2: "queries tr2 = j"
    unfolding performs_def by blast
  have "trace w' = trace w @ (tr1 @ tr2)" using t1 t2 by simp
  moreover have "P (queries (tr1 @ tr2))" using q1 q2 P by simp
  ultimately show "\<exists>tr. trace w' = trace w @ tr \<and> P (queries tr)" by blast
qed

lemma performs_try_catch: "performs body P \<Longrightarrow> performs (try_catch body handleError) P"
  by (simp add: performs_def try_catch_handleError_Inr)

lemma performs_ops:
  "performs connectToDatabase (\<lambda>a. a = 0)"
  "performs (User_create user) (\<lambda>a. a = 1)"
  "performs (User_findById drv userId) (\<lambda>a. a = 1)"
  "performs (User_findOne_clerkId c) (\<lambda>a. a = 1)"
  "performs (User_findOneAndUpdate_clerkId c upd) (\<lambda>a. a = 1)"
  "performs (User_findByIdAndDelete i) (\<lambda>a. a = 1)"
  "performs (Category_create name) (\<lambda>a. a = 1)"
  "performs Category_find (\<lambda>a. a = 1)"
  "performs (Category_findOne_name_regex drv name) (\<lambda>a. a = 1)"
  "performs (Event_create drv event cat org) (\<lambda>a. a = 1)"
  "performs (Event_findById drv s) (\<lambda>a. a = 1)"
  "performs (Event_findById_populated drv s) (\<lambda>a. a = 1)"
  "performs (Event_find_populated drv conds skipAmount limit) (\<lambda>a. a = 1)"
  "performs (Event_countDocuments drv conds) (\<lambda>a. a = 1)"
  "performs (Event_findByIdAndDelete drv s) (\<lambda>a. a = 1)"
  "performs (Event_findByIdAndUpdate drv s eu) (\<lambda>a. a = 1)"
  "performs (Event_updateMany_pull_organizer drv ids i) (\<lambda>a. a = 1)"
  "performs (Order_create drv order) (\<lambda>a. a = 1)"
  "performs (Order_updateMany_unset_buyer ids) (\<lambda>a. a = 1)"
  "performs (Order_aggregate i m) (\<lambda>a. a = 1)"
  "performs (Order_find_populated drv oconds skipAmount limit) (\<lambda>a. a = 1)"
  "performs (Order_countDocuments drv oconds) (\<lambda>a. a = 1)"
  unfolding connectToDatabase_def User_create_def User_findById_def User_findOne_clerkId_def
    User_findOneAndUpdate_clerkId_def User_findByIdAndDelete_def Category_create_def
    Category_find_def Category_findOne_name_regex_def Event_create_def Event_findById_def
    Event_findById_populated_def Event_find_populated_def Event_countDocuments_def
    Event_findByIdAndDelete_def Event_findByIdAndUpdate_def Event_updateMany_pull_organizer_def
    Order_create_def Order_updateMany_unset_buyer_def Order_aggregate_def
    Order_find_populated_def Order_countDocuments_def
  by (rule performs_db_op;
      auto simp: keeps_trace_def resolve_def throw_def cast_failed_def Let_def
        split: option.splits sum.splits prod.splits)+

lemmas performs_intros =
  performs_try_catch performs_await performs_ops performs_resolve performs_throw
  performs_console_log performs_revalidatePath

lemma performs_getAllEvents:
  "performs (getAllEvents drv query limit_arg page cat) (\<lambda>n. n = (if cat = [] then 2 else 3))"
proof (cases "cat = []")
  case True
  then show ?thesis
    unfolding getAllEvents_def Let_def
    by (auto intro!: performs_intros split: option.split)
next
  case False
  then show ?thesis
    unfolding getAllEvents_def getCategoryByName_def Let_def
    by (auto intro!: performs_intros split: option.split)
qed

lemma performs_deleteUser: "performs (deleteUser drv clerkId') (\<lambda>n. n = 4)"
  unfolding deleteUser_def
  by (auto intro!: performs_intros performs_Promise_all2 split: option.split)

lemma performs_one:
  "performs (createUser user) (\<lambda>n. n = 1)"
  "performs (getUserById drv userId) (\<lambda>n. n = 1)"
  "performs (updateUser clerkId' upd) (\<lambda>n. n = 1)"
  "performs (createCategory name) (\<lambda>n. n = 1)"
  "performs getAllCategories (\<lambda>n. n = 1)"
  "performs (getEventById drv eventId) (\<lambda>n. n = 1)"
  "performs (deleteEvent drv eventId path) (\<lambda>n. n = 1)"
  "performs (createOrder drv order) (\<lambda>n. n = 1)"
  "performs (getOrdersByEvent drv searchString eventId) (\<lambda>n. n = 1)"
  unfolding createUser_def getUserById_def updateUser_def createCategory_def
    getAllCategories_def getEventById_def deleteEvent_def createOrder_def getOrdersByEvent_def
  by (auto intro!: performs_intros split: option.split)

lemma performs_two:
  "performs (createEvent drv userId event path) (\<lambda>n. n = 2)"
  "performs (updateEvent drv userId event' path) (\<lambda>n. n = 2)"
  "performs (getAllEvents_initial drv query limit_arg page cat) (\<lambda>n. n = 2)"
  "performs (getRelatedEventsByCategory drv categoryId' eventId limit_arg page_arg) (\<lambda>n. n = 2)"
  "performs (getEventsByUser drv userId limit_arg page) (\<lambda>n. n = 2)"
  "performs (getOrdersByUser drv userId limit_arg page) (\<lambda>n. n = 2)"
  unfolding createEvent_def updateEvent_def getAllEvents_initial_def
    getRelatedEventsByCategory_def getEventsByUser_def getOrdersByUser_def Let_def
  by (auto intro!: performs_intros split: option.split)

text \<open>
  C8, amended. A successful invocation of a data-access action performs between one and
  four document-store queries (connecting aside): two or three in \<open>getAllEvents\<close> (three
  when a category name is supplied), four in \<open>deleteUser\<close>, one in \<open>createUser\<close>,
  \<open>getUserById\<close>, \<open>updateUser\<close>, \<open>createCategory\<close>, \<open>getAllCategories\<close>, \<open>getEventById\<close>,
  \<open>deleteEvent\<close>, \<open>createOrder\<close> and \<open>getOrdersByEvent\<close>, and two in the others.
\<close>

theorem queries_per_invocation:
  "performs (getAllEvents drv query limit_arg page cat) (\<lambda>n. n = (if cat = [] then 2 else 3))
   \<and> performs (deleteUser drv clerkId') (\<lambda>n. n = 4)
   \<and> performs (createUser user) (\<lambda>n. n = 1)
   \<and> performs (getUserById drv userId) (\<lambda>n. n = 1)
   \<and> performs (updateUser clerkId' upd) (\<lambda>n. n = 1)
   \<and> performs (createCategory name) (\<lambda>n. n = 1)
   \<and> performs getAllCategories (\<lambda>n. n = 1)
   \<and> performs (getEventById drv eventId) (\<lambda>n. n = 1)
   \<and> performs (deleteEvent drv eventId path) (\<lambda>n. n = 1)
   \<and> performs (createOrder drv order) (\<lambda>n. n = 1)
   \<and> performs (getOrdersByEvent drv searchString eventId) (\<lambda>n. n = 1)
   \<and> performs (createEvent drv userId event path) (\<lambda>n. n = 2)
   \<and> performs (updateEvent drv userId event' path) (\<lambda>n. n = 2)
   \<and> performs (getAllEvents_initial drv query limit_arg page cat) (\<lambda>n. n = 2)
   \<and> performs (getRelatedEventsByCategory drv categoryId' eventId limit_arg page_arg) (\<lambda>n. n = 2)
   \<and> performs (getEventsByUser drv userId limit_arg page) (\<lambda>n. n = 2)
   \<and> performs (getOrdersByUser drv userId limit_arg page) (\<lambda>n. n = 2)"
  by (intro conjI performs_one performs_two performs_getAllEvents performs_deleteUser)

text \<open>With a category name, \<open>getAllEvents\<close> makes three queries in the sample world.\<close>

theorem queries_per_invocation_witness:
  "\<exists>r w'. getAllEvents sample_driver [] (Some 5) 1 ''mus'' world0 = (Inr r, w')
     \<and> queries (trace w') = 3"
proof -
  obtain r where "fst (getAllEvents sample_driver [] (Some 5) 1 ''mus'' world0) = Inr r"
    using sample_getAllEvents_returns by (auto split: sum.splits)
  then have run: "getAllEvents sample_driver [] (Some 5) 1 ''mus'' world0
      = (Inr r, snd (getAllEvents sample_driver [] (Some 5) 1 ''mus'' world0))"
    by (metis prod.collapse)
  have "performs (getAllEvents sample_driver [] (Some 5) 1 ''mus'')
      (\<lambda>n. n = (if ''mus'' = [] then 2 else 3))"
    by (rule queries_per_invocation[THEN conjunct1])
  with run obtain tr where
    "trace (snd (getAllEvents sample_driver [] (Some 5) 1 ''mus'' world0)) = trace world0 @ tr"
    and "queries tr = 3"
    unfolding performs_def by fastforce
  moreover have "trace world0 = []" by (simp add: world0_def)
  ultimately have "queries (trace (snd (getAllEvents sample_driver [] (Some 5) 1 ''mus'' world0))) = 3"
    by simp
  with run show ?thesis by blast
qed

text \<open>
  C8, as stated, fails: a successful \<open>deleteUser\<close> makes four queries, a find, two updates
  and a delete.
\<close>

theorem deleteUser_four_queries:
  "(case fst (deleteUser sample_driver ''clerk_b'' world0) of Inr _ \<Rightarrow> True | Inl _ \<Rightarrow> False)
   \<and> trace world0 = []
   \<and> trace (snd (deleteUser sample_driver ''clerk_b'' world0))
       = [(Connect, None), (Query Users FindOne, None), (Query Events UpdateMany, None),
          (Query Orders UpdateMany, None), (Query Users FindByIdAndDelete, None)]"
  by code_simp

section \<open>The URL query helpers\<close>

subsection \<open>join and split\<close>

lemma join_with_Cons: "ys \<noteq> [] \<Longrightarrow> join_with sep (x # ys) = x @ sep @ join_with sep ys"
  by (cases ys) simp_all

lemma join_with_append:
  "xs \<noteq> [] \<Longrightarrow> ys \<noteq> [] \<Longrightarrow> join_with sep (xs @ ys) = join_with sep xs @ sep @ join_with sep ys"
  by (induction sep xs rule: join_with.induct) (simp_all add: join_with_Cons)

lemma join_with_nonempty:
  "xs \<noteq> [] \<Longrightarrow> \<forall>x \<in> set xs. x \<noteq> [] \<Longrightarrow> join_with sep xs \<noteq> []"
  by (induction sep xs rule: join_with.induct) simp_all

lemma join_with_flatten:
  assumes "\<forall>xs \<in> set xss. \<forall>x \<in> set xs. x \<noteq> []"
  shows "join_with sep (filter (\<lambda>x. x \<noteq> []) (map (join_with sep) xss)) = join_with sep (concat xss)"
  using assms
proof (induction xss)
  case Nil
  then show ?case by simp
next
  case (Cons xs xss)
  let ?rest = "filter (\<lambda>x. x \<noteq> []) (map (join_with sep) xss)"
  have IH: "join_with sep ?rest = join_with sep (concat xss)" using Cons by simp
  have all: "\<forall>x \<in> set (concat xss). x \<noteq> []" using Cons.prems by auto
  have rest_all: "\<forall>x \<in> set ?rest. x \<noteq> []" by simp
  show ?case
  proof (cases "xs = []")
    case True
    then show ?thesis using IH by simp
  next
    case False
    then have ne: "join_with sep xs \<noteq> []" using Cons.prems by (simp add: join_with_nonempty)
    show ?thesis
    proof (cases "concat xss = []")
      case True
      have "join_with sep ?rest = []" unfolding IH by (simp only: True join_with.simps)
      then have rest: "?rest = []" using join_with_nonempty[OF _ rest_all] by blast
      have c: "concat (xs # xss) = xs" by (simp only: concat.simps True append_Nil2)
      show ?thesis unfolding c using rest ne by simp
    next
      case c: False
      then have "join_with sep (concat xss) \<noteq> []" using all by (simp add: join_with_nonempty)
      then have "?rest \<noteq> []" using IH by auto
      then show ?thesis using ne False c IH by (simp add: join_with_Cons join_with_append)
    qed
  qed
qed

lemma set_join_with: "set (join_with sep xs) \<subseteq> set sep \<union> (\<Union>x \<in> set xs. set x)"
  by (induction sep xs rule: join_with.induct) auto

lemma hd_join_with: "x \<noteq> [] \<Longrightarrow> hd (join_with sep (x # xs)) = hd x"
  by (cases xs) simp_all

lemma split_on_not_Nil: "split_on sep s \<noteq> []"
  by (induction s) (auto split: list.splits)

lemma split_on_no_sep: "sep \<notin> set s \<Longrightarrow> split_on sep s = [s]"
  by (induction s) auto

lemma split_on_append:
  "sep \<notin> set x \<Longrightarrow> split_on sep (x @ sep # rest) = x # split_on sep rest"
  by (induction x) (auto split: list.splits simp: split_on_not_Nil)

lemma split_on_join_with:
  "xs \<noteq> [] \<Longrightarrow> \<forall>x \<in> set xs. sep \<notin> set x \<Longrightarrow> split_on sep (join_with [sep] xs) = xs"
  by (induction "[sep]" xs rule: join_with.induct) (simp_all add: split_on_no_sep split_on_append)

subsection \<open>encode and decode\<close>

lemma upper_hex_digits: "list_all (\<lambda>n. hex_value (upper_hex_digit n) = Some n \<and> unreserved (upper_hex_digit n)) [0..<16]"
  by code_simp

lemma hex_value_upper_hex_digit: "n < 16 \<Longrightarrow> hex_value (upper_hex_digit n) = Some n"
  using upper_hex_digits by (simp add: list_all_iff)

lemma unreserved_upper_hex_digit: "n < 16 \<Longrightarrow> unreserved (upper_hex_digit n)"
  using upper_hex_digits by (simp add: list_all_iff)

lemma reserved_chars:
  "list_all (\<lambda>c. \<not> unreserved c)
     [CHR ''%'', CHR ''&'', CHR ''='', CHR ''+'', CHR ''?'', CHR ''#'',
      CHR 0x09, CHR 0x0A, CHR 0x0B, CHR 0x0C, CHR 0x0D, CHR '' '']"
  by code_simp

lemma unreserved_plain:
  "unreserved c \<Longrightarrow> c \<noteq> CHR ''%'' \<and> c \<noteq> CHR ''&'' \<and> c \<noteq> CHR ''='' \<and> c \<noteq> CHR ''+''
     \<and> c \<noteq> CHR ''?'' \<and> c \<noteq> CHR ''#'' \<and> \<not> whitespace c"
  using reserved_chars by (auto simp: whitespace_def)

lemma decode_not_percent:
  "c \<noteq> CHR ''%'' \<Longrightarrow> decode_uri_component (c # s) = c # decode_uri_component s"
  by (cases s; cases "tl s") auto

lemma of_char_div_16: "(of_char (c::char) :: nat) div 16 < 16"
proof -
  have "(of_char c :: nat) < 256" by simp
  then show ?thesis by linarith
qed

lemma decode_encode_append:
  "decode_uri_component (strict_uri_encode s @ t) = s @ decode_uri_component t"
proof (induction s)
  case Nil
  then show ?case by (simp add: strict_uri_encode_def)
next
  case (Cons c s)
  have enc: "strict_uri_encode (c # s) =
      (if unreserved c then [c]
       else [CHR ''%'', upper_hex_digit (of_char c div 16), upper_hex_digit (of_char c mod 16)])
      @ strict_uri_encode s"
    by (simp add: strict_uri_encode_def)
  show ?case
  proof (cases "unreserved c")
    case True
    then show ?thesis using Cons enc by (simp add: decode_not_percent unreserved_plain)
  next
    case False
    have "char_of (16 * ((of_char c :: nat) div 16) + (of_char c :: nat) mod 16) = c" by simp
    then show ?thesis
      using Cons enc False by (simp add: hex_value_upper_hex_digit of_char_div_16)
  qed
qed

lemma decode_encode: "decode_uri_component (strict_uri_encode s) = s"
  using decode_encode_append[of s "[]"] by simp

lemma encode_chars: "c \<in> set (strict_uri_encode s) \<Longrightarrow> unreserved c \<or> c = CHR ''%''"
  by (auto simp: strict_uri_encode_def unreserved_upper_hex_digit of_char_div_16 split: if_splits)

lemma percent_plain: "\<not> whitespace CHR ''%''"
  by code_simp

lemma equals_plain: "\<not> whitespace CHR ''=''"
  by code_simp

lemma encode_plain:
  assumes "c \<in> set (strict_uri_encode s)"
  shows "c \<noteq> CHR ''&'' \<and> c \<noteq> CHR ''='' \<and> c \<noteq> CHR ''+'' \<and> c \<noteq> CHR ''?'' \<and> c \<noteq> CHR ''#''
     \<and> \<not> whitespace c"
proof (cases "unreserved c")
  case True
  then show ?thesis using unreserved_plain by blast
next
  case False
  then have "c = CHR ''%''" using encode_chars[OF assms] by blast
  then show ?thesis using percent_plain by simp
qed

lemma written_chars:
  assumes "c \<in> set (written k v)"
  shows "c \<noteq> CHR ''&'' \<and> c \<noteq> CHR ''+'' \<and> c \<noteq> CHR ''?'' \<and> c \<noteq> CHR ''#'' \<and> \<not> whitespace c"
proof -
  from assms consider "c \<in> set (strict_uri_encode k)" | "c = CHR ''=''"
    | "c \<in> set (strict_uri_encode v)"
    by (auto simp: written_def)
  then show ?thesis
  proof cases
    case 1
    then show ?thesis using encode_plain by blast
  next
    case 2
    then show ?thesis using equals_plain by simp
  next
    case 3
    then show ?thesis using encode_plain by blast
  qed
qed

lemma written_nonempty: "written k v \<noteq> []"
  by (simp add: written_def)

lemma split_on_first_written:
  "split_on_first CHR ''='' (written k v) = (strict_uri_encode k, Some (strict_uri_encode v))"
proof -
  have no: "\<And>c. c \<in> set (strict_uri_encode k) \<Longrightarrow> c \<noteq> CHR ''=''" using encode_plain by blast
  have "takeWhile (\<lambda>c. c \<noteq> CHR ''='') (strict_uri_encode k @ CHR ''='' # strict_uri_encode v)
      = strict_uri_encode k"
    using no by (simp add: takeWhile_append2)
  moreover have "dropWhile (\<lambda>c. c \<noteq> CHR ''='') (strict_uri_encode k @ CHR ''='' # strict_uri_encode v)
      = CHR ''='' # strict_uri_encode v"
    using no by (simp add: dropWhile_append2)
  ultimately show ?thesis by (simp add: split_on_first_def written_def)
qed

subsection \<open>What stringify writes\<close>

lemma param_values_update:
  "param_values (AList.update k (QString v) object) = (param_values object)(k := [v])"
  by (auto simp: param_values_def update_conv' fun_eq_iff)

lemma param_values_delete:
  "param_values (AList.delete k object) = (param_values object)(k := [])"
  by (auto simp: param_values_def delete_conv' fun_eq_iff)

lemma param_values_fold_delete:
  "param_values (fold AList.delete ks object) = (\<lambda>k. if k \<in> set ks then [] else param_values object k)"
  by (induction ks arbitrary: object) (auto simp: param_values_delete fun_eq_iff)

lemma param_values_keys: "param_values object k \<noteq> [] \<Longrightarrow> k \<in> fst ` set object"
  by (cases "map_of object k") (auto simp: param_values_def dest!: map_of_SomeD intro: rev_image_eqI)

lemma finite_param_keys: "finite {k. param_values object k \<noteq> []}"
  by (rule finite_subset[of _ "fst ` set object"]) (auto dest: param_values_keys)

lemma concat_map_nonempty:
  "concat (map f xs) = concat (map f (filter (\<lambda>x. f x \<noteq> []) xs))"
  by (induction xs) auto

lemma array_written:
  "concat (map (\<lambda>x. case x of None \<Rightarrow> [] | Some v \<Rightarrow> [written k v]) xs)
     = map (written k) (concat (map (\<lambda>x. case x of None \<Rightarrow> [] | Some s \<Rightarrow> [s]) xs))"
  by (induction xs) (auto split: option.splits)

lemma render_written:
  assumes "map_of object key \<noteq> Some QNull"
  shows "(case map_of object key of
             None \<Rightarrow> []
           | Some QNull \<Rightarrow> strict_uri_encode key
           | Some (QString value) \<Rightarrow> strict_uri_encode key @ ''='' @ strict_uri_encode value
           | Some (QArray values) \<Rightarrow>
               join_with ''&'' (concat (map (\<lambda>value.
                  case value of
                    None \<Rightarrow> []
                  | Some v \<Rightarrow> [strict_uri_encode key @ ''='' @ strict_uri_encode v]) values)))
     = join_with ''&'' (map (written key) (param_values object key))"
proof (cases "map_of object key")
  case None
  then show ?thesis by (simp add: param_values_def)
next
  case (Some old)
  show ?thesis
  proof (cases old)
    case QNull
    then show ?thesis using Some assms by simp
  next
    case (QString v)
    then show ?thesis using Some by (simp add: param_values_def written_def)
  next
    case (QArray xs)
    have "param_values object key = concat (map (\<lambda>x. case x of None \<Rightarrow> [] | Some s \<Rightarrow> [s]) xs)"
      using Some QArray by (simp add: param_values_def)
    then have a: "map (written key) (param_values object key)
        = concat (map (\<lambda>x. case x of None \<Rightarrow> [] | Some v \<Rightarrow> [written key v]) xs)"
      by (simp only: array_written)
    have b: "(\<lambda>x. case x of None \<Rightarrow> [] | Some v \<Rightarrow> [written key v])
        = (\<lambda>value. case value of None \<Rightarrow> []
             | Some v \<Rightarrow> [strict_uri_encode key @ ''='' @ strict_uri_encode v])"
      by (simp add: fun_eq_iff written_def split: option.splits)
    show ?thesis by (simp only: Some QArray option.case qvalue.case a b)
  qed
qed

lemma stringify_written:
  "stringify object = join_with ''&'' (concat (map (\<lambda>k. map (written k) (param_values object k))
      (sorted_list_of_set {k. param_values object k \<noteq> []})))"
proof -
  let ?keys = "sort (remdups (map fst (filter (\<lambda>(k, v). map_of object k \<noteq> Some QNull) object)))"
  let ?g = "\<lambda>k. map (written k) (param_values object k)"
  have keys: "set ?keys = {k \<in> fst ` set object. map_of object k \<noteq> Some QNull}"
    by force
  have render: "map (\<lambda>key.
           case map_of object key of
             None \<Rightarrow> []
           | Some QNull \<Rightarrow> strict_uri_encode key
           | Some (QString value) \<Rightarrow> strict_uri_encode key @ ''='' @ strict_uri_encode value
           | Some (QArray values) \<Rightarrow>
               join_with ''&'' (concat (map (\<lambda>value.
                  case value of
                    None \<Rightarrow> []
                  | Some v \<Rightarrow> [strict_uri_encode key @ ''='' @ strict_uri_encode v]) values)))
         ?keys = map (join_with ''&'') (map ?g ?keys)"
    using keys by (simp add: render_written)
  have nonempty: "\<forall>xs \<in> set (map ?g ?keys). \<forall>x \<in> set xs. x \<noteq> []"
    by (auto simp: written_nonempty)
  have "filter (\<lambda>k. ?g k \<noteq> []) ?keys = sorted_list_of_set {k. param_values object k \<noteq> []}"
  proof (rule sorted_distinct_set_unique)
    show "sorted (filter (\<lambda>k. ?g k \<noteq> []) ?keys)" by (simp add: sorted_wrt_filter)
    show "distinct (filter (\<lambda>k. ?g k \<noteq> []) ?keys)" by simp
    show "sorted (sorted_list_of_set {k. param_values object k \<noteq> []})" by simp
    show "distinct (sorted_list_of_set {k. param_values object k \<noteq> []})" by simp
    have "{k \<in> fst ` set object. map_of object k \<noteq> Some QNull \<and> param_values object k \<noteq> []}
        = {k. param_values object k \<noteq> []}"
      using param_values_keys by (auto simp: param_values_def)
    then show "set (filter (\<lambda>k. ?g k \<noteq> []) ?keys)
        = set (sorted_list_of_set {k. param_values object k \<noteq> []})"
      unfolding set_filter keys using finite_param_keys[of object] by auto
  qed
  then have "concat (map ?g ?keys)
      = concat (map ?g (sorted_list_of_set {k. param_values object k \<noteq> []}))"
    using concat_map_nonempty[of ?g ?keys] by simp
  then show ?thesis
    unfolding stringify_def Let_def render
    using join_with_flatten[OF nonempty, of "''&''"] by simp
qed

lemma stringify_cong:
  "param_values a = param_values b \<Longrightarrow> stringify a = stringify b"
  by (simp add: stringify_written)

subsection \<open>What parse reads\<close>

lemma param_values_formatter:
  "param_values (formatter k (Some v) ret) = (param_values ret)(k := param_values ret k @ [v])"
proof -
  have "param_values (formatter k (Some v) ret) k' = ((param_values ret)(k := param_values ret k @ [v])) k'"
    for k'
  proof (cases "map_of ret k")
    case None
    then show ?thesis by (simp add: param_values_def formatter_def update_conv')
  next
    case (Some old)
    then show ?thesis
      by (cases old) (simp_all add: param_values_def formatter_def update_conv')
  qed
  then show ?thesis by (simp add: fun_eq_iff)
qed

lemma param_values_foldl_formatter:
  "param_values (foldl (\<lambda>ret p. formatter (fst p) (Some (snd p)) ret) [] ps) k
     = map snd (filter (\<lambda>p. fst p = k) ps)"
proof (induction ps arbitrary: k rule: rev_induct)
  case Nil
  then show ?case by (simp add: param_values_def)
next
  case (snoc p ps)
  then show ?case by (simp add: param_values_formatter)
qed

lemma map_of_sorted_keys:
  "map_of (map (\<lambda>key. (key, the (map_of ret key))) (sort (remdups (map fst ret)))) = map_of ret"
proof
  fix k
  show "map_of (map (\<lambda>key. (key, the (map_of ret key))) (sort (remdups (map fst ret)))) k
      = map_of ret k"
  proof (cases "k \<in> fst ` set ret")
    case True
    then obtain v where "map_of ret k = Some v"
      by (metis map_of_eq_None_iff not_Some_eq)
    then show ?thesis using True by (simp add: map_of_map_restrict restrict_map_def)
  next
    case False
    then have "map_of ret k = None" by (simp add: map_of_eq_None_iff)
    then show ?thesis using False by (simp add: map_of_map_restrict restrict_map_def)
  qed
qed

lemma trim_plain: "\<forall>c \<in> set s. \<not> whitespace c \<Longrightarrow> trim s = s"
proof (cases s)
  case Nil
  then show ?thesis by (simp add: trim_def)
next
  case (Cons c cs)
  assume plain: "\<forall>c \<in> set s. \<not> whitespace c"
  have a: "dropWhile whitespace s = s" using plain Cons by simp
  have ne: "s \<noteq> []" using Cons by simp
  then have "last s \<in> set s" by (rule last_in_set)
  then have "hd (rev s) \<in> set s" by (simp only: hd_rev)
  moreover have "rev s \<noteq> []" using ne by simp
  ultimately have b: "dropWhile whitespace (rev s) = rev s"
    using plain by (simp add: dropWhile_eq_self_iff)
  show ?thesis by (simp add: trim_def a b)
qed

lemma parse_empty: "parse [] = []"
  by (simp add: parse_def trim_def)

lemma parse_written:
  "param_values (parse (join_with ''&'' (map (\<lambda>p. written (fst p) (snd p)) ps))) k
     = map snd (filter (\<lambda>p. fst p = k) ps)"
proof (cases ps)
  case Nil
  then show ?thesis by (simp add: parse_empty param_values_def)
next
  case (Cons p ps')
  let ?params = "map (\<lambda>p. written (fst p) (snd p)) ps"
  let ?q = "join_with ''&'' ?params"
  let ?step = "\<lambda>ret param.
                    if param = [] then ret
                    else (case split_on_first CHR ''=''
                                 (map (\<lambda>c. if c = CHR ''+'' then CHR '' '' else c) param) of
                            (key, value) \<Rightarrow>
                              formatter (decode_uri_component key)
                                (map_option decode_uri_component value) ret)"
  have params: "?params \<noteq> []" using Cons by simp
  have chars: "\<forall>x \<in> set ?params. \<forall>c \<in> set x. c \<noteq> CHR ''&'' \<and> c \<noteq> CHR ''+'' \<and> c \<noteq> CHR ''?''
      \<and> c \<noteq> CHR ''#'' \<and> \<not> whitespace c"
    using written_chars by auto
  have amp: "\<not> whitespace CHR ''&''" by code_simp
  have "\<forall>c \<in> set ?q. \<not> whitespace c"
  proof
    fix c assume "c \<in> set ?q"
    then have "c \<in> set ''&'' \<or> (\<exists>x \<in> set ?params. c \<in> set x)"
      using set_join_with[of "''&''" ?params] by blast
    then show "\<not> whitespace c" using chars amp by auto
  qed
  then have trim: "trim ?q = ?q" by (rule trim_plain)
  have q_ne: "?q \<noteq> []"
    using join_with_nonempty[OF params] by (simp add: written_nonempty)
  have first: "hd ?q = hd (written (fst p) (snd p))"
    using Cons by (simp add: hd_join_with written_nonempty)
  have "hd (written (fst p) (snd p)) \<in> set (written (fst p) (snd p))"
    by (simp add: written_nonempty)
  then have "hd ?q \<notin> set ''?#&''" using written_chars first by auto
  then have strip: "(case ?q of [] \<Rightarrow> [] | c # rest \<Rightarrow> if c \<in> set ''?#&'' then rest else ?q) = ?q"
    using q_ne by (cases ?q) auto
  have noamp: "\<forall>x \<in> set ?params. CHR ''&'' \<notin> set x" using chars by blast
  have split: "split_on CHR ''&'' ?q = ?params"
    using split_on_join_with[OF params noamp] by simp
  have step: "?step ret (written k' v) = formatter k' (Some v) ret" for ret k' v
  proof -
    have "map (\<lambda>c. if c = CHR ''+'' then CHR '' '' else c) (written k' v) = written k' v"
      using written_chars by (intro map_idI) auto
    then show ?thesis
      by (simp add: written_nonempty split_on_first_written decode_encode)
  qed
  have fold: "foldl ?step [] ?params = foldl (\<lambda>ret p. formatter (fst p) (Some (snd p)) ret) [] ps"
    by (simp add: foldl_map step)
  have "parse ?q = map (\<lambda>key. (key, the (map_of (foldl ?step [] ?params) key)))
      (sort (remdups (map fst (foldl ?step [] ?params))))"
    unfolding parse_def Let_def trim strip split using q_ne by simp
  then have "param_values (parse ?q) k = param_values (foldl ?step [] ?params) k"
    by (simp add: param_values_def map_of_sorted_keys)
  then show ?thesis by (simp add: fold param_values_foldl_formatter)
qed

lemma filter_key_concat:
  "distinct ks \<Longrightarrow>
     filter (\<lambda>p. fst p = k) (concat (map (\<lambda>k'. map (Pair k') (f k')) ks))
       = (if k \<in> set ks then map (Pair k) (f k) else [])"
  by (induction ks) (auto simp: filter_empty_conv)

lemma parse_stringify:
  "param_values (parse (stringify object)) = param_values object"
proof
  fix k
  let ?ks = "sorted_list_of_set {k. param_values object k \<noteq> []}"
  let ?ps = "concat (map (\<lambda>k'. map (Pair k') (param_values object k')) ?ks)"
  have "stringify object = join_with ''&'' (map (\<lambda>p. written (fst p) (snd p)) ?ps)"
    by (simp add: stringify_written map_concat o_def)
  then have "param_values (parse (stringify object)) k = map snd (filter (\<lambda>p. fst p = k) ?ps)"
    by (simp add: parse_written)
  also have "\<dots> = (if k \<in> set ?ks then param_values object k else [])"
    by (simp add: filter_key_concat o_def)
  also have "\<dots> = param_values object k"
    using finite_param_keys[of object] by simp
  finally show "param_values (parse (stringify object)) k = param_values object k" .
qed

subsection \<open>stringifyUrl on a path\<close>

lemma map_of_fold_update:
  "map_of (fold (\<lambda>key. AList.update key (f key)) ks al)
     = (\<lambda>k. if k \<in> set ks then Some (f k) else map_of al k)"
  by (induction ks arbitrary: al) (auto simp: update_conv' fun_eq_iff)

lemma absent_char:
  "c \<notin> set s \<Longrightarrow> takeWhile (\<lambda>x. x \<noteq> c) s = s \<and> dropWhile (\<lambda>x. x \<noteq> c) s = []"
  by (induction s) auto

lemma stringifyUrl_path:
  assumes "CHR ''?'' \<notin> set pathname" and "CHR ''#'' \<notin> set pathname"
  shows "stringifyUrl pathname object
     = pathname @ (if stringify object = [] then [] else ''?'' @ stringify object)"
proof -
  have a: "takeWhile (\<lambda>c. c \<noteq> CHR ''#'') pathname = pathname"
    and b: "takeWhile (\<lambda>c. c \<noteq> CHR ''?'') pathname = pathname"
    and c: "dropWhile (\<lambda>c. c \<noteq> CHR ''#'') pathname = []"
    and d: "dropWhile (\<lambda>c. c \<noteq> CHR ''?'') pathname = []"
    using assms by (simp_all add: absent_char)
  have "map_of (fold (\<lambda>key. AList.update key (the (map_of object key))) (map fst object) []) k
      = map_of object k" for k
  proof (cases "map_of object k")
    case None
    then have "k \<notin> fst ` set object" by (simp add: map_of_eq_None_iff)
    then show ?thesis using None by (simp add: map_of_fold_update)
  next
    case (Some v)
    then have "k \<in> fst ` set object" by (auto dest!: map_of_SomeD intro: rev_image_eqI)
    then show ?thesis using Some by (simp add: map_of_fold_update)
  qed
  then have "map_of (fold (\<lambda>key. AList.update key (the (map_of object key))) (map fst object) [])
      = map_of object"
    by (simp add: fun_eq_iff)
  then have "stringify (fold (\<lambda>key. AList.update key (the (map_of object key))) (map fst object) [])
      = stringify object"
    by (intro stringify_cong) (simp add: param_values_def fun_eq_iff)
  then show ?thesis
    by (simp add: stringifyUrl_def extract_query_def a b c d parse_empty Let_def)
qed

lemma query_of_path:
  assumes "CHR ''?'' \<notin> set pathname"
  shows "query_of (pathname @ (if s = [] then [] else ''?'' @ s)) = s"
proof -
  have "dropWhile (\<lambda>c. c \<noteq> CHR ''?'') pathname = []" using assms by (simp add: absent_char)
  moreover have "dropWhile (\<lambda>c. c \<noteq> CHR ''?'') (pathname @ CHR ''?'' # s) = CHR ''?'' # s"
    using assms by (induction pathname) auto
  ultimately show ?thesis by (simp add: query_of_def)
qed

text \<open>
  C4. Whatever the query string, the key and the value, \<open>formUrlQuery\<close> applied with the
  same key and value to the query portion of its own result gives that result again;
  and whatever the keys to remove, so does \<open>removeKeysFromQuery\<close> applied with the same
  keys to the query portion of its own result. The path of the page, as every path,
  holds no \<open>?\<close> and no \<open>#\<close>.
\<close>

theorem query_idempotent:
  "CHR ''?'' \<notin> set pathname \<and> CHR ''#'' \<notin> set pathname \<longrightarrow>
     formUrlQuery query_string_package pathname
         (query_of (formUrlQuery query_string_package pathname params key v)) key v
       = formUrlQuery query_string_package pathname params key v
     \<and> removeKeysFromQuery query_string_package pathname
         (query_of (removeKeysFromQuery query_string_package pathname params keysToRemove))
         keysToRemove
       = removeKeysFromQuery query_string_package pathname params keysToRemove"
proof (intro impI conjI)
  assume path: "CHR ''?'' \<notin> set pathname \<and> CHR ''#'' \<notin> set pathname"
  let ?o = "AList.update key (QString v) (parse params)"
  have first: "formUrlQuery query_string_package pathname params key v
      = pathname @ (if stringify ?o = [] then [] else ''?'' @ stringify ?o)"
    using path by (simp add: formUrlQuery_def query_string_package_def stringifyUrl_path)
  have "param_values (AList.update key (QString v) (parse (stringify ?o))) = param_values ?o"
    by (simp add: param_values_update parse_stringify)
  then have "stringify (AList.update key (QString v) (parse (stringify ?o))) = stringify ?o"
    by (rule stringify_cong)
  then show "formUrlQuery query_string_package pathname
         (query_of (formUrlQuery query_string_package pathname params key v)) key v
       = formUrlQuery query_string_package pathname params key v"
    unfolding first using path
    by (simp add: query_of_path formUrlQuery_def query_string_package_def stringifyUrl_path)
  let ?r = "fold AList.delete keysToRemove (parse params)"
  have removed: "removeKeysFromQuery query_string_package pathname params keysToRemove
      = pathname @ (if stringify ?r = [] then [] else ''?'' @ stringify ?r)"
    using path by (simp add: removeKeysFromQuery_def query_string_package_def stringifyUrl_path)
  have "param_values (fold AList.delete keysToRemove (parse (stringify ?r))) = param_values ?r"
    by (auto simp: param_values_fold_delete parse_stringify fun_eq_iff)
  then have "stringify (fold AList.delete keysToRemove (parse (stringify ?r))) = stringify ?r"
    by (rule stringify_cong)
  then show "removeKeysFromQuery query_string_package pathname
         (query_of (removeKeysFromQuery query_string_package pathname params keysToRemove))
         keysToRemove
       = removeKeysFromQuery query_string_package pathname params keysToRemove"
    unfolding removed using path
    by (simp add: query_of_path removeKeysFromQuery_def query_string_package_def stringifyUrl_path)
qed

text \<open>
  A key that holds \<open>&\<close> and a value that holds a space are written encoded and read back;
  a key given without a value and a key given twice are written once.
\<close>

lemma sample_formUrlQuery:
  "formUrlQuery query_string_package ''/events'' ''q=jazz&page=2'' ''a&b'' ''1 2''
     = ''/events?a%26b=1%202&page=2&q=jazz''"
  "query_of ''/events?a%26b=1%202&page=2&q=jazz'' = ''a%26b=1%202&page=2&q=jazz''"
  "removeKeysFromQuery query_string_package ''/events'' ''?q=jazz&tag&tag=a+b&page=2'' [''q'', ''x'']
     = ''/events?page=2&tag=a%20b''"
  "query_of ''/events?page=2&tag=a%20b'' = ''page=2&tag=a%20b''"
  by code_simp+

theorem query_idempotent_witness:
  "formUrlQuery query_string_package ''/events'' ''a%26b=1%202&page=2&q=jazz'' ''a&b'' ''1 2''
     = ''/events?a%26b=1%202&page=2&q=jazz''
   \<and> removeKeysFromQuery query_string_package ''/events'' ''page=2&tag=a%20b'' [''q'', ''x'']
     = ''/events?page=2&tag=a%20b''"
  using query_idempotent[where pathname = "''/events''" and params = "''q=jazz&page=2''"
      and key = "''a&b''" and v = "''1 2''" and keysToRemove = "[]"]
    query_idempotent[where pathname = "''/events''" and params = "''?q=jazz&tag&tag=a+b&page=2''"
      and key = "''a''" and v = "''b''" and keysToRemove = "[''q'', ''x'']"]
  by (simp add: sample_formUrlQuery)

section \<open>The buttons of \<open>Pagination\<close>\<close>

text \<open>
  In the URL that \<open>formUrlQuery\<close> returns, read back, the key has the value alone and
  every other key the values it had.
\<close>

lemma formUrlQuery_sets:
  assumes "CHR ''?'' \<notin> set pathname" and "CHR ''#'' \<notin> set pathname"
  shows "param_values (parse (query_of (formUrlQuery query_string_package pathname params key v)))
     = (param_values (parse params))(key := [v])"
  using assms
  by (simp add: formUrlQuery_def Let_def query_string_package_def stringifyUrl_path query_of_path
      parse_stringify param_values_update)

text \<open>
  C10. Whatever the page and the number of pages, the Previous button is disabled
  exactly when \<open>Number(page)\<close> is a number that is at most one (or minus infinity), and the
  Next button exactly when \<open>Number(page)\<close> and \<open>totalPages\<close> are numbers, the second at most
  the first; neither is when \<open>Number(page)\<close> is \<open>NaN\<close>. A click on Next, the click of type
  \<open>next\<close>, pushes without scrolling the URL that \<open>formUrlQuery\<close> makes of the current
  query, the key \<open>urlParamName\<close>, or \<open>page\<close> when that is absent or empty, and the text
  of the double nearest to \<open>Number(page) + 1\<close>; a click on Previous, and a click of any
  other type, the same with \<open>Number(page) - 1\<close>; \<open>NaN\<close> and the infinities stay what they
  are. Read back, the query of the pushed URL has the key with that value alone and
  every other key with the values it had.
\<close>

theorem pagination_buttons:
  "(disabled (Previous (Pagination qs rt props)) \<longleftrightarrow>
      (case Number_of rt (page_of props) of
         Double a \<Rightarrow> a \<le> 1 | MinusInfinity \<Rightarrow> True | NotANumber \<Rightarrow> False | Infinity \<Rightarrow> False))
   \<and> (disabled (Next (Pagination qs rt props)) \<longleftrightarrow>
      (case Number_of rt (page_of props) of
         Double a \<Rightarrow>
           (case totalPages_of props of
              Double t \<Rightarrow> t \<le> a | MinusInfinity \<Rightarrow> True | NotANumber \<Rightarrow> False | Infinity \<Rightarrow> False)
       | Infinity \<Rightarrow> totalPages_of props \<noteq> NotANumber
       | MinusInfinity \<Rightarrow> totalPages_of props = MinusInfinity
       | NotANumber \<Rightarrow> False))
   \<and> click (Next (Pagination qs rt props)) b =
       b\<lparr>pushed := pushed b @
         [(formUrlQuery qs (location_pathname b) (searchParams b)
             (case urlParamName props of
                None \<Rightarrow> ''page'' | Some name \<Rightarrow> if name = [] then ''page'' else name)
             (double_toString rt
                (case Number_of rt (page_of props) of
                   Double a \<Rightarrow> nearest_double rt (a + 1) | other \<Rightarrow> other)),
           False)]\<rparr>
   \<and> click (Previous (Pagination qs rt props)) b =
       b\<lparr>pushed := pushed b @
         [(formUrlQuery qs (location_pathname b) (searchParams b)
             (case urlParamName props of
                None \<Rightarrow> ''page'' | Some name \<Rightarrow> if name = [] then ''page'' else name)
             (double_toString rt
                (case Number_of rt (page_of props) of
                   Double a \<Rightarrow> nearest_double rt (a - 1) | other \<Rightarrow> other)),
           False)]\<rparr>
   \<and> (btnType \<noteq> ''next'' \<longrightarrow>
        onClick qs rt props btnType b = click (Previous (Pagination qs rt props)) b)
   \<and> onClick qs rt props ''next'' b = click (Next (Pagination qs rt props)) b
   \<and> (CHR ''?'' \<notin> set (location_pathname b) \<and> CHR ''#'' \<notin> set (location_pathname b) \<longrightarrow>
        (\<exists>u. pushed (click (Next (Pagination query_string_package rt props)) b)
               = pushed b @ [(u, False)]
           \<and> param_values (parse (query_of u)) =
               (param_values (parse (searchParams b)))
                 ((case urlParamName props of
                     None \<Rightarrow> ''page'' | Some name \<Rightarrow> if name = [] then ''page'' else name)
                  := [double_toString rt
                        (case Number_of rt (page_of props) of
                           Double a \<Rightarrow> nearest_double rt (a + 1) | other \<Rightarrow> other)])))"
proof -
  have key: "or_else (urlParamName props) ''page''
      = (case urlParamName props of
           None \<Rightarrow> ''page'' | Some name \<Rightarrow> if name = [] then ''page'' else name)"
    by (simp add: or_else_def)
  have inc: "double_add rt n (Double 1)
      = (case n of Double a \<Rightarrow> nearest_double rt (a + 1) | other \<Rightarrow> other)" for n
    by (cases n) simp_all
  have dec: "double_sub rt n (Double 1)
      = (case n of Double a \<Rightarrow> nearest_double rt (a - 1) | other \<Rightarrow> other)" for n
    by (cases n) simp_all
  have prev: "double_le n (Double 1)
      \<longleftrightarrow> (case n of Double a \<Rightarrow> a \<le> 1 | MinusInfinity \<Rightarrow> True | NotANumber \<Rightarrow> False
            | Infinity \<Rightarrow> False)" for n
    by (cases n) simp_all
  have nxt: "double_ge n t
      \<longleftrightarrow> (case n of
         Double a \<Rightarrow>
           (case t of
              Double t' \<Rightarrow> t' \<le> a | MinusInfinity \<Rightarrow> True | NotANumber \<Rightarrow> False | Infinity \<Rightarrow> False)
       | Infinity \<Rightarrow> t \<noteq> NotANumber
       | MinusInfinity \<Rightarrow> t = MinusInfinity
       | NotANumber \<Rightarrow> False)" for n t
    by (cases n; cases t) (simp_all add: double_ge_def)
  have next_click: "click (Next (Pagination qs' rt props)) b =
       b\<lparr>pushed := pushed b @
         [(formUrlQuery qs' (location_pathname b) (searchParams b)
             (case urlParamName props of
                None \<Rightarrow> ''page'' | Some name \<Rightarrow> if name = [] then ''page'' else name)
             (double_toString rt
                (case Number_of rt (page_of props) of
                   Double a \<Rightarrow> nearest_double rt (a + 1) | other \<Rightarrow> other)),
           False)]\<rparr>" for qs'
    by (simp add: Pagination_def onClick_def Let_def key inc)
  have read_back: "\<exists>u. pushed (click (Next (Pagination query_string_package rt props)) b)
               = pushed b @ [(u, False)]
           \<and> param_values (parse (query_of u)) =
               (param_values (parse (searchParams b)))
                 ((case urlParamName props of
                     None \<Rightarrow> ''page'' | Some name \<Rightarrow> if name = [] then ''page'' else name)
                  := [double_toString rt
                        (case Number_of rt (page_of props) of
                           Double a \<Rightarrow> nearest_double rt (a + 1) | other \<Rightarrow> other)])"
    if "CHR ''?'' \<notin> set (location_pathname b) \<and> CHR ''#'' \<notin> set (location_pathname b)"
    using that by (simp add: next_click formUrlQuery_sets)
  show ?thesis
    using read_back
    by (simp add: next_click)
      (simp add: Pagination_def onClick_def Let_def key inc dec prev nxt)
qed

text \<open>
  On the second of three pages no button is disabled, and Next pushes page three under
  the parameter \<open>p\<close>; on the only page both are, and Previous would push page zero; from
  page two and a half Next pushes three and a half; a page that is no number disables
  nothing and pushes \<open>NaN\<close>.
\<close>

lemma sample_pages:
  "Number_of sample_runtime (page_of second_of_three) = Double 2"
  "Number_of sample_runtime (page_of only_page) = Double 1"
  "Number_of sample_runtime (page_of fractional_page) = Double (5 / 2)"
  "Number_of sample_runtime (page_of no_page) = NotANumber"
  by (simp_all add: sample_runtime_def second_of_three_def only_page_def fractional_page_def
      no_page_def digits_value_def)

lemma sample_decimals: "decimal 0 = ''0''" "decimal 3 = ''3''" "decimal 5 = ''5''"
  by code_simp+

lemma sample_texts:
  "double_toString sample_runtime (nearest_double sample_runtime 3) = ''3''"
  "double_toString sample_runtime (nearest_double sample_runtime 0) = ''0''"
  "double_toString sample_runtime (nearest_double sample_runtime (7 / 2)) = ''3.5''"
  "double_toString sample_runtime NotANumber = ''NaN''"
  by (simp_all add: sample_runtime_def sample_decimals)

lemma sample_urls:
  "formUrlQuery query_string_package ''/events'' ''q=jazz&page=2'' ''p'' ''3''
     = ''/events?p=3&page=2&q=jazz''"
  "formUrlQuery query_string_package ''/events'' ''q=jazz&page=2'' ''page'' ''0''
     = ''/events?page=0&q=jazz''"
  "formUrlQuery query_string_package ''/events'' ''q=jazz&page=2'' ''page'' ''3.5''
     = ''/events?page=3.5&q=jazz''"
  "formUrlQuery query_string_package ''/events'' ''q=jazz&page=2'' ''page'' ''NaN''
     = ''/events?page=NaN&q=jazz''"
  by code_simp+

theorem pagination_buttons_witness:
  "\<not> disabled (Previous (Pagination query_string_package sample_runtime second_of_three))
   \<and> \<not> disabled (Next (Pagination query_string_package sample_runtime second_of_three))
   \<and> pushed (click (Next (Pagination query_string_package sample_runtime second_of_three))
        sample_browser) = [(''/events?p=3&page=2&q=jazz'', False)]
   \<and> param_values (parse (query_of (fst (hd (pushed
        (click (Next (Pagination query_string_package sample_runtime second_of_three))
           sample_browser)))))) ''p'' = [''3'']
   \<and> disabled (Previous (Pagination query_string_package sample_runtime only_page))
   \<and> disabled (Next (Pagination query_string_package sample_runtime only_page))
   \<and> pushed (click (Previous (Pagination query_string_package sample_runtime only_page))
        sample_browser) = [(''/events?page=0&q=jazz'', False)]
   \<and> \<not> disabled (Next (Pagination query_string_package sample_runtime fractional_page))
   \<and> pushed (click (Next (Pagination query_string_package sample_runtime fractional_page))
        sample_browser) = [(''/events?page=3.5&q=jazz'', False)]
   \<and> \<not> disabled (Previous (Pagination query_string_package sample_runtime no_page))
   \<and> \<not> disabled (Next (Pagination query_string_package sample_runtime no_page))
   \<and> pushed (onClick query_string_package sample_runtime no_page ''back'' sample_browser)
       = [(''/events?page=NaN&q=jazz'', False)]"
proof -
  note main = pagination_buttons[where qs = query_string_package and rt = sample_runtime
      and b = sample_browser and btnType = "''back''"]
  have path: "CHR ''?'' \<notin> set (location_pathname sample_browser)
      \<and> CHR ''#'' \<notin> set (location_pathname sample_browser)"
    by (simp add: sample_browser_def)
  have other: "''back'' \<noteq> ''next''" by simp
  have browser: "location_pathname sample_browser = ''/events''"
    "searchParams sample_browser = ''q=jazz&page=2''" "pushed sample_browser = []"
    by (simp_all add: sample_browser_def)
  have names: "urlParamName second_of_three = Some ''p''" "urlParamName only_page = None"
    "urlParamName fractional_page = Some []" "urlParamName no_page = None"
    "totalPages_of second_of_three = Double 3" "totalPages_of only_page = Double 1"
    "totalPages_of fractional_page = Double 3" "totalPages_of no_page = Double 3"
    by (simp_all add: second_of_three_def only_page_def fractional_page_def no_page_def)
  have seven_halves: "(5 / 2 + 1 :: real) = 7 / 2" by simp
  note a = main[where props = second_of_three]
  note b = main[where props = only_page]
  note c = main[where props = fractional_page]
  note d = main[where props = no_page]
  from a[THEN conjunct2, THEN conjunct2, THEN conjunct2, THEN conjunct2, THEN conjunct2,
      THEN conjunct2, THEN mp, OF path]
  obtain u where u: "pushed (click (Next (Pagination query_string_package sample_runtime
        second_of_three)) sample_browser) = pushed sample_browser @ [(u, False)]"
    and read: "param_values (parse (query_of u)) =
      (param_values (parse (searchParams sample_browser)))(''p'' := [''3''])"
    by (auto simp: names sample_pages sample_texts)
  have read_back: "param_values (parse (query_of (fst (hd (pushed
        (click (Next (Pagination query_string_package sample_runtime second_of_three))
           sample_browser)))))) ''p'' = [''3'']"
    by (simp add: u browser read)
  have "\<not> disabled (Previous (Pagination query_string_package sample_runtime second_of_three))"
    "\<not> disabled (Next (Pagination query_string_package sample_runtime second_of_three))"
    "pushed (click (Next (Pagination query_string_package sample_runtime second_of_three))
        sample_browser) = [(''/events?p=3&page=2&q=jazz'', False)]"
    using a by (simp_all add: names sample_pages sample_texts sample_urls browser)
  moreover have "disabled (Previous (Pagination query_string_package sample_runtime only_page))"
    "disabled (Next (Pagination query_string_package sample_runtime only_page))"
    "pushed (click (Previous (Pagination query_string_package sample_runtime only_page))
        sample_browser) = [(''/events?page=0&q=jazz'', False)]"
    using b by (simp_all add: names sample_pages sample_texts sample_urls browser)
  moreover have "\<not> disabled (Next (Pagination query_string_package sample_runtime fractional_page))"
    "pushed (click (Next (Pagination query_string_package sample_runtime fractional_page))
        sample_browser) = [(''/events?page=3.5&q=jazz'', False)]"
    using c by (simp_all add: names sample_pages sample_texts sample_urls browser seven_halves)
  moreover have "\<not> disabled (Previous (Pagination query_string_package sample_runtime no_page))"
    "\<not> disabled (Next (Pagination query_string_package sample_runtime no_page))"
    "pushed (onClick query_string_package sample_runtime no_page ''back'' sample_browser)
       = [(''/events?page=NaN&q=jazz'', False)]"
    using d other by (simp_all add: names sample_pages sample_texts sample_urls browser)
  ultimately show ?thesis using read_back by simp
qed

end
